theory Spec2Isabelle
  imports Complex_Main "HOL-Library.AList"
begin

section \<open>Series with missing values\<close>

text \<open>
  The forecasting core of \<^verbatim>\<open>stock_apk.py\<close> works on pandas Series and numpy arrays of
  floats. A float is idealised as a real number (rounding and overflow are not modelled,
  but for the rounding of the continuity shift); the one non-number that the code handles
  on purpose, NaN, is the cell \<open>None\<close>. No division of the code has a zero divisor: a
  series used as a divisor has its zeros replaced by NaN first, and the other divisors
  (\<open>1 + rs\<close>, a fitted scale, a window or list length) are positive.
\<close>

type_synonym cell = "real option"
type_synonym series = "cell list"

datatype error = KeyError | ValueError | IndexError

definition nan_lift2 :: "(real \<Rightarrow> real \<Rightarrow> real) \<Rightarrow> cell \<Rightarrow> cell \<Rightarrow> cell" where
  "nan_lift2 f a b =
     (case a of None \<Rightarrow> None
      | Some x \<Rightarrow> (case b of None \<Rightarrow> None | Some y \<Rightarrow> Some (f x y)))"

definition series_sub :: "series \<Rightarrow> series \<Rightarrow> series" where
  "series_sub a b = map2 (nan_lift2 (-)) a b"

definition series_add :: "series \<Rightarrow> series \<Rightarrow> series" where
  "series_add a b = map2 (nan_lift2 (+)) a b"

definition series_div :: "series \<Rightarrow> series \<Rightarrow> series" where
  "series_div a b = map2 (nan_lift2 (/)) a b"

text \<open>\<^verbatim>\<open>s.shift()\<close>: every value moves one row down, the first row becomes NaN.\<close>

definition shift :: "series \<Rightarrow> series" where
  "shift s = (if s = [] then [] else None # butlast s)"

text \<open>\<^verbatim>\<open>s.diff()\<close>: \<open>s[i] - s[i-1]\<close>, NaN in the first row.\<close>

definition diff :: "series \<Rightarrow> series" where
  "diff s = series_sub s (shift s)"

definition clip_lower :: "real \<Rightarrow> series \<Rightarrow> series" where
  "clip_lower lo s = map (map_option (max lo)) s"

definition clip_upper :: "real \<Rightarrow> series \<Rightarrow> series" where
  "clip_upper hi s = map (map_option (min hi)) s"

definition neg :: "series \<Rightarrow> series" where
  "neg s = map (map_option uminus) s"

definition series_abs :: "series \<Rightarrow> series" where
  "series_abs s = map (map_option abs) s"

text \<open>\<^verbatim>\<open>s.replace(0, np.nan)\<close> and \<^verbatim>\<open>s.fillna(v)\<close>.\<close>

definition replace_zero_nan :: "series \<Rightarrow> series" where
  "replace_zero_nan s = map (\<lambda>c. if c = Some 0 then None else c) s"

definition fillna :: "real \<Rightarrow> series \<Rightarrow> series" where
  "fillna v s = map (\<lambda>c. case c of None \<Rightarrow> Some v | Some x \<Rightarrow> Some x) s"

text \<open>\<^verbatim>\<open>s.bfill()\<close>: a NaN takes the next defined value below it; trailing NaNs stay.\<close>

fun bfill :: "series \<Rightarrow> series" where
  "bfill [] = []"
| "bfill (c # cs) =
     (let r = bfill cs
      in (case c of Some x \<Rightarrow> Some x
          | None \<Rightarrow> (case r of [] \<Rightarrow> None | y # _ \<Rightarrow> y)) # r)"

subsection \<open>Exponentially weighted mean\<close>

text \<open>
  \<^verbatim>\<open>s.ewm(..., adjust=..., min_periods=...).mean()\<close> with pandas' default
  \<^verbatim>\<open>ignore_na=False\<close>, as pandas computes it: one pass that carries the running mean
  \<open>weighted\<close>, the weight \<open>old_wt\<close> of the history and the number \<open>nobs\<close> of defined values
  seen. A row shows the running mean once \<open>nobs\<close> has reached \<open>max min_periods 1\<close>.
\<close>

record ewm_state =
  weighted :: cell
  old_wt :: real
  nobs :: nat

definition ewm_step :: "real \<Rightarrow> bool \<Rightarrow> cell \<Rightarrow> ewm_state \<Rightarrow> ewm_state" where
  "ewm_step alpha adjust cur st =
     (let new_wt = (if adjust then 1 else alpha);
          n = nobs st + (if cur = None then 0 else 1)
      in case weighted st of
           None \<Rightarrow> \<lparr>weighted = cur, old_wt = old_wt st, nobs = n\<rparr>
         | Some w \<Rightarrow>
             (let ow = old_wt st * (1 - alpha)
              in case cur of
                   None \<Rightarrow> \<lparr>weighted = Some w, old_wt = ow, nobs = n\<rparr>
                 | Some c \<Rightarrow>
                     \<lparr>weighted = Some ((ow * w + new_wt * c) / (ow + new_wt)),
                      old_wt = (if adjust then ow + new_wt else 1),
                      nobs = n\<rparr>))"

definition ewm_out :: "nat \<Rightarrow> ewm_state \<Rightarrow> cell" where
  "ewm_out minp st = (if minp \<le> nobs st then weighted st else None)"

fun ewm_run :: "real \<Rightarrow> bool \<Rightarrow> nat \<Rightarrow> ewm_state \<Rightarrow> series \<Rightarrow> series" where
  "ewm_run alpha adjust minp st [] = []"
| "ewm_run alpha adjust minp st (cur # rest) =
     ewm_out minp (ewm_step alpha adjust cur st)
       # ewm_run alpha adjust minp (ewm_step alpha adjust cur st) rest"

definition ewm_mean :: "real \<Rightarrow> bool \<Rightarrow> nat \<Rightarrow> series \<Rightarrow> series" where
  "ewm_mean alpha adjust min_periods s =
     ewm_run alpha adjust (max min_periods 1)
       \<lparr>weighted = None, old_wt = 1, nobs = 0\<rparr> s"

text \<open>\<^verbatim>\<open>ewm(span=n)\<close> has \<open>alpha = 2 / (n + 1)\<close>, \<^verbatim>\<open>ewm(com=c)\<close> has \<open>alpha = 1 / (1 + c)\<close>.\<close>

definition alpha_of_span :: "nat \<Rightarrow> real" where
  "alpha_of_span n = 2 / (real n + 1)"

definition alpha_of_com :: "real \<Rightarrow> real" where
  "alpha_of_com c = 1 / (1 + c)"

section \<open>compute_rsi\<close>

text \<open>
  The three intermediate series of \<^verbatim>\<open>compute_rsi\<close> are named as in the source. pandas
  rejects a negative centre of mass, so \<open>period = 0\<close> raises \<^verbatim>\<open>ValueError\<close>.
\<close>

definition rsi_gain :: "series \<Rightarrow> series" where
  "rsi_gain s = clip_lower 0 (diff s)"

definition rsi_loss :: "series \<Rightarrow> series" where
  "rsi_loss s = neg (clip_upper 0 (diff s))"

definition avg_gain :: "series \<Rightarrow> nat \<Rightarrow> series" where
  "avg_gain s period = ewm_mean (alpha_of_com (real period - 1)) True period (rsi_gain s)"

definition avg_loss :: "series \<Rightarrow> nat \<Rightarrow> series" where
  "avg_loss s period = ewm_mean (alpha_of_com (real period - 1)) True period (rsi_loss s)"

definition compute_rsi :: "series \<Rightarrow> nat \<Rightarrow> error + series" where
  "compute_rsi s period =
     (if period = 0 then Inl ValueError
      else
        let rs = series_div (avg_gain s period) (replace_zero_nan (avg_loss s period));
            rsi = map (map_option (\<lambda>r. 100 - 100 / (1 + r))) rs;
            rsi = fillna 100 rsi;
            rsi = bfill rsi
        in Inr rsi)"

subsection \<open>Rolling windows, row maximum, dropping rows\<close>

text \<open>
  \<^verbatim>\<open>s.rolling(window=w)\<close> has \<^verbatim>\<open>min_periods = w\<close>: a row has a value only when the \<open>w\<close>
  rows ending at it exist and are all defined. \<^verbatim>\<open>.std()\<close> is the sample standard deviation
  (\<^verbatim>\<open>ddof=1\<close>), undefined on fewer than two values.
\<close>

definition rolling :: "nat \<Rightarrow> (real list \<Rightarrow> cell) \<Rightarrow> series \<Rightarrow> series" where
  "rolling w f s =
     map (\<lambda>i. if i + 1 < w then None
              else (case those (take w (drop (i + 1 - w) s)) of
                      None \<Rightarrow> None
                    | Some xs \<Rightarrow> f xs))
         [0..<length s]"

definition mean :: "real list \<Rightarrow> real" where
  "mean xs = sum_list xs / real (length xs)"

definition window_mean :: "real list \<Rightarrow> cell" where
  "window_mean xs = (if xs = [] then None else Some (mean xs))"

definition window_std :: "real list \<Rightarrow> cell" where
  "window_std xs =
     (if length xs \<le> 1 then None
      else Some (sqrt (sum_list (map (\<lambda>x. (x - mean xs)\<^sup>2) xs) / (real (length xs) - 1))))"

text \<open>\<^verbatim>\<open>DataFrame.max(axis=1, skipna=True)\<close> over three columns.\<close>

definition cell_max :: "cell \<Rightarrow> cell \<Rightarrow> cell" where
  "cell_max a b =
     (case a of None \<Rightarrow> b
      | Some x \<Rightarrow> (case b of None \<Rightarrow> Some x | Some y \<Rightarrow> Some (max x y)))"

definition row_max3 :: "series \<Rightarrow> series \<Rightarrow> series \<Rightarrow> series" where
  "row_max3 a b c = map2 cell_max a (map2 cell_max b c)"

text \<open>
  A table is kept as its columns; \<open>rows_of\<close> reads it row by row and \<open>dropna\<close> keeps
  the rows without NaN, as numbers.
\<close>

type_synonym matrix = "real list list"

fun rows_of :: "series list \<Rightarrow> cell list list" where
  "rows_of [] = []"
| "rows_of [c] = map (\<lambda>x. [x]) c"
| "rows_of (c # cs) = map2 (#) c (rows_of cs)"

definition dropna :: "series list \<Rightarrow> matrix" where
  "dropna cols = List.map_filter those (rows_of cols)"

text \<open>Column \<open>j\<close> of a matrix, \<^verbatim>\<open>m[:, j]\<close>.\<close>

definition column :: "nat \<Rightarrow> matrix \<Rightarrow> real list" where
  "column j m = map (\<lambda>r. r ! j) m"

section \<open>Min-max scaling\<close>

text \<open>
  \<^verbatim>\<open>MinMaxScaler().fit_transform\<close> of scikit-learn, one column: \<open>scale_ = 1 / range\<close>,
  where a range below ten machine epsilons counts as \<open>1\<close>, \<open>min_ = 0 - data_min * scale_\<close>,
  and a value \<open>x\<close> becomes \<open>x * scale_ + min_\<close>. NaNs are ignored by the fit and kept by the
  transform. Fitting zero rows raises \<^verbatim>\<open>ValueError\<close>. The fields \<open>min_attr\<close> and
  \<open>scale_attr\<close> are the attributes \<^verbatim>\<open>min_\<close> and \<^verbatim>\<open>scale_\<close> of the fitted scaler.
\<close>

definition float_eps :: real where
  "float_eps = 1 / 2 ^ 52"

definition handle_zeros_in_scale :: "real \<Rightarrow> real" where
  "handle_zeros_in_scale r = (if r < 10 * float_eps then 1 else r)"

record scaler =
  min_attr :: real
  scale_attr :: real

definition fit_column :: "real \<Rightarrow> real list \<Rightarrow> scaler" where
  "fit_column x xs =
     \<lparr>min_attr = 0 - fold min xs x * (1 / handle_zeros_in_scale (fold max xs x - fold min xs x)),
      scale_attr = 1 / handle_zeros_in_scale (fold max xs x - fold min xs x)\<rparr>"

fun minmax_fit :: "real list \<Rightarrow> error + scaler" where
  "minmax_fit [] = Inl ValueError"
| "minmax_fit (x # xs) = Inr (fit_column x xs)"

definition transform :: "scaler \<Rightarrow> real \<Rightarrow> real" where
  "transform sc x = x * scale_attr sc + min_attr sc"

definition inverse_transform :: "scaler \<Rightarrow> real \<Rightarrow> real" where
  "inverse_transform sc x = (x - min_attr sc) / scale_attr sc"

definition defined_values :: "series \<Rightarrow> real list" where
  "defined_values s = List.map_filter id s"

definition minmax_fit_transform_column :: "series \<Rightarrow> error + series" where
  "minmax_fit_transform_column s =
     (if s = [] then Inl ValueError
      else (case minmax_fit (defined_values s) of
              Inl e \<Rightarrow> Inr (map (\<lambda>c. None) s)
            | Inr sc \<Rightarrow> Inr (map (map_option (transform sc)) s)))"

section \<open>On-balance volume\<close>

text \<open>
  The loop of \<^verbatim>\<open>compute_indicators\<close> over rows \<open>1 .. len - 1\<close>: \<open>pc\<close> and \<open>po\<close> are
  \<^verbatim>\<open>close[i-1]\<close> and \<^verbatim>\<open>obv[i-1]\<close>. Row 0 keeps the initial \<open>0\<close>.
\<close>

definition obv_next :: "real \<Rightarrow> real \<Rightarrow> real \<Rightarrow> real \<Rightarrow> real" where
  "obv_next pc po c v =
     (if c > pc then po + v
      else if c < pc then po - v
      else po)"

fun obv_loop :: "real \<Rightarrow> real \<Rightarrow> (real \<times> real) list \<Rightarrow> real list" where
  "obv_loop pc po [] = []"
| "obv_loop pc po ((c, v) # rest) = obv_next pc po c v # obv_loop c (obv_next pc po c v) rest"

definition obv :: "real list \<Rightarrow> real list \<Rightarrow> real list" where
  "obv close volume =
     (case zip close volume of
        [] \<Rightarrow> []
      | (c0, v0) # rest \<Rightarrow> 0 # obv_loop c0 0 rest)"

definition obv_scaled :: "real list \<Rightarrow> real list \<Rightarrow> error + series" where
  "obv_scaled close volume = minmax_fit_transform_column (map Some (obv close volume))"

section \<open>The indicator engine\<close>

text \<open>
  A price frame: the dates of its rows (proleptic Gregorian ordinals, as
  \<^verbatim>\<open>date.toordinal()\<close> gives them) and its named columns, in order. The values of an
  input frame are numbers; NaN first appears in the warm-up rows of the indicators. In a
  well-formed frame every column has one value per row.
\<close>

record frame =
  index :: "int list"
  columns :: "(string \<times> real list) list"

definition wf_frame :: "frame \<Rightarrow> bool" where
  "wf_frame df = list_all (\<lambda>(n, c). length c = length (index df)) (columns df)"

text \<open>\<^verbatim>\<open>df.empty\<close>: no row or no column.\<close>

definition empty_frame :: "frame \<Rightarrow> bool" where
  "empty_frame df = (index df = [] \<or> columns df = [])"

text \<open>\<^verbatim>\<open>str(col).lower()\<close> on ASCII column names.\<close>

definition lower_char :: "char \<Rightarrow> char" where
  "lower_char c =
     (if 65 \<le> (of_char c :: nat) \<and> (of_char c :: nat) \<le> 90
      then char_of ((of_char c :: nat) + 32) else c)"

definition lower :: "string \<Rightarrow> string" where
  "lower s = map lower_char s"

text \<open>\<^verbatim>\<open>data.loc[:, ~data.columns.duplicated(keep='first')]\<close>\<close>

fun drop_duplicated :: "string list \<Rightarrow> (string \<times> 'a) list \<Rightarrow> (string \<times> 'a) list" where
  "drop_duplicated seen [] = []"
| "drop_duplicated seen ((n, c) # rest) =
     (if n \<in> set seen then drop_duplicated seen rest
      else (n, c) # drop_duplicated (n # seen) rest)"

text \<open>The columns of the working copy: names in lower case, later duplicates dropped.\<close>

definition normalize_columns :: "frame \<Rightarrow> (string \<times> real list) list" where
  "normalize_columns df = drop_duplicated [] (map (\<lambda>(n, c). (lower n, c)) (columns df))"

definition required_cols :: "string list" where
  "required_cols = [''close'', ''high'', ''low'', ''volume'']"

definition scale_series :: "real \<Rightarrow> series \<Rightarrow> series" where
  "scale_series k s = map (map_option (\<lambda>x. x * k)) s"

text \<open>
  The body of the \<^verbatim>\<open>try\<close> block: the nine feature columns in their fixed order, or the
  exception that the block raises. A span or window of \<open>0\<close> is rejected by pandas.
\<close>

definition true_range :: "series \<Rightarrow> series \<Rightarrow> series \<Rightarrow> series" where
  "true_range high low close =
     row_max3 (series_sub high low)
       (series_abs (series_sub high (shift close)))
       (series_abs (series_sub low (shift close)))"

definition bb_width :: "series \<Rightarrow> series \<Rightarrow> series" where
  "bb_width ema20 stddev =
     bfill (series_div
       (series_sub (series_add ema20 (scale_series 2 stddev))
                   (series_sub ema20 (scale_series 2 stddev)))
       (replace_zero_nan ema20))"

definition feature_columns ::
  "real list \<Rightarrow> real list \<Rightarrow> real list \<Rightarrow> real list \<Rightarrow> nat \<Rightarrow> nat \<Rightarrow> error + series list" where
  "feature_columns close high low volume vol_window ema_window =
     (if ema_window = 0 \<or> vol_window = 0 then Inl ValueError
      else
        (case compute_rsi (map Some close) 14 of
           Inl e \<Rightarrow> Inl e
         | Inr rsi \<Rightarrow>
             (case obv_scaled close volume of
                Inl e \<Rightarrow> Inl e
              | Inr obv_col \<Rightarrow>
                  Inr [map Some close,
                       \<comment> \<open>EMA20\<close>
                       ewm_mean (alpha_of_span ema_window) False 0 (map Some close),
                       \<comment> \<open>MACD: \<open>ema12 - ema26\<close>\<close>
                       series_sub (ewm_mean (alpha_of_span 12) False 0 (map Some close))
                                  (ewm_mean (alpha_of_span 26) False 0 (map Some close)),
                       \<comment> \<open>RSI MA\<close>
                       rolling 9 window_mean rsi,
                       \<comment> \<open>RSI Slope\<close>
                       diff (rolling 9 window_mean rsi),
                       \<comment> \<open>OBV\<close>
                       obv_col,
                       \<comment> \<open>ATR\<close>
                       ewm_mean (alpha_of_span vol_window) False 0
                         (true_range (map Some high) (map Some low) (map Some close)),
                       \<comment> \<open>StdDev\<close>
                       rolling vol_window window_std (map Some close),
                       \<comment> \<open>BBWidth\<close>
                       bb_width (ewm_mean (alpha_of_span ema_window) False 0 (map Some close))
                                (rolling vol_window window_std (map Some close))])))"

text \<open>
  \<^verbatim>\<open>compute_indicators\<close>: every failure (empty frame, missing column, exception in the
  calculations, no row left after \<^verbatim>\<open>dropna\<close>) gives the frame without rows, \<open>[]\<close>.
  A row of the result lists \<^verbatim>\<open>close, EMA20, MACD, RSI_MA, RSI_Slope, OBV, ATR, StdDev,
  BBWidth\<close>.
\<close>

definition compute_indicators :: "frame \<Rightarrow> nat \<Rightarrow> nat \<Rightarrow> matrix" where
  "compute_indicators df vol_window ema_window =
     (if empty_frame df then []
      else
        let data = normalize_columns df;
            missing_cols = filter (\<lambda>col. col \<notin> set (map fst data)) required_cols
        in if missing_cols \<noteq> [] then []
           else
             (case (map_of data ''close'', map_of data ''high'',
                    map_of data ''low'', map_of data ''volume'') of
                (Some close, Some high, Some low, Some volume) \<Rightarrow>
                  (case feature_columns close high low volume vol_window ema_window of
                     Inl e \<Rightarrow> []
                   | Inr cols \<Rightarrow> dropna cols)
              | _ \<Rightarrow> []))"

section \<open>Scaling the feature matrix and building the windows\<close>

text \<open>
  \<^verbatim>\<open>scaler.fit_transform(features_df)\<close>: one fitted scaler per column, over all rows, and
  the matrix of the scaled values.
\<close>

definition fit :: "matrix \<Rightarrow> error + scaler list" where
  "fit X =
     (case X of
        [] \<Rightarrow> Inl ValueError
      | r # rs \<Rightarrow>
          if r = [] then Inl ValueError
          else Inr (map (\<lambda>j. fit_column (r ! j) (column j rs)) [0..<length r]))"

definition transform_rows :: "scaler list \<Rightarrow> matrix \<Rightarrow> matrix" where
  "transform_rows scs X = map (\<lambda>r. map2 transform scs r) X"

text \<open>
  The loop \<^verbatim>\<open>for i in range(time_step, len(scaled_data))\<close>: the pair appended at \<open>i\<close> is the
  window \<^verbatim>\<open>scaled_data[i - time_step:i, :]\<close> and the label \<^verbatim>\<open>scaled_data[i, 0]\<close>.
\<close>

definition make_windows :: "matrix \<Rightarrow> nat \<Rightarrow> (matrix \<times> real) list" where
  "make_windows scaled_data time_step =
     map (\<lambda>i. (take time_step (drop (i - time_step) scaled_data), scaled_data ! i ! 0))
         [time_step..<length scaled_data]"

section \<open>The autoregressive rollout\<close>

text \<open>
  One pass of the prediction loop: the new row is a copy of the last row of the batch with
  entry \<open>0\<close> overwritten, appended after dropping the oldest row. Reading the last row of
  an empty batch, or writing entry \<open>0\<close> of an empty row, raises \<^verbatim>\<open>IndexError\<close>.
\<close>

definition roll_step :: "matrix \<Rightarrow> real \<Rightarrow> error + matrix" where
  "roll_step current_batch next_pred_scaled =
     (if current_batch = [] then Inl IndexError
      else if last current_batch = [] then Inl IndexError
      else Inr (tl current_batch @ [(last current_batch)[0 := next_pred_scaled]]))"

text \<open>
  The loop state is the list \<^verbatim>\<open>predicted_scaled_prices\<close> and \<^verbatim>\<open>current_batch\<close>; the
  trained model is the function \<open>predict\<close> from a batch to the next scaled close.
\<close>

fun roll_loop :: "(matrix \<Rightarrow> real) \<Rightarrow> nat \<Rightarrow> real list \<times> matrix \<Rightarrow> error + real list \<times> matrix" where
  "roll_loop predict 0 st = Inr st"
| "roll_loop predict (Suc n) (predicted_scaled_prices, current_batch) =
     (case roll_step current_batch (predict current_batch) of
        Inl e \<Rightarrow> Inl e
      | Inr batch \<Rightarrow>
          roll_loop predict n (predicted_scaled_prices @ [predict current_batch], batch))"

section \<open>Forecast dates\<close>

text \<open>
  A date is its ordinal; ordinal \<open>1\<close> is a Monday and \<^verbatim>\<open>weekday()\<close> counts Monday as \<open>0\<close>.
  \<^verbatim>\<open>pd.date_range(start=s, periods=n, freq='B')\<close> lists the first \<open>n\<close> business days
  from \<open>s\<close> on.
\<close>

definition weekday :: "int \<Rightarrow> int" where
  "weekday d = (d + 6) mod 7"

definition business_day :: "int \<Rightarrow> bool" where
  "business_day d = (weekday d < 5)"

definition roll_forward :: "int \<Rightarrow> int" where
  "roll_forward d = (if weekday d = 5 then d + 2 else if weekday d = 6 then d + 1 else d)"

fun bdate_range :: "int \<Rightarrow> nat \<Rightarrow> int list" where
  "bdate_range start 0 = []"
| "bdate_range start (Suc n) = roll_forward start # bdate_range (roll_forward start + 1) n"

definition prediction_days :: nat where
  "prediction_days = 10"

section \<open>The sentiment trend forecast\<close>

text \<open>
  A dictionary is an association list in insertion order; \<open>AList.update\<close> stores a value
  as a Python assignment does. \<^verbatim>\<open>self.sentiment_data\<close> maps a date to a score.
\<close>

type_synonym 'v dict = "(int \<times> 'v) list"

definition dict_of :: "(int \<times> 'v) list \<Rightarrow> 'v dict" where
  "dict_of kvs = fold (\<lambda>(k, v) d. AList.update k v d) kvs []"

definition dict_get :: "'v dict \<Rightarrow> int \<Rightarrow> 'v \<Rightarrow> 'v" where
  "dict_get d k dflt = (case map_of d k of None \<Rightarrow> dflt | Some v \<Rightarrow> v)"

text \<open>
  \<^verbatim>\<open>LinearRegression\<close> on one regressor gives a line, or raises. \<open>linear_fit\<close> is the
  least-squares line it computes on numbers (slope \<open>0\<close>, the minimum-norm solution, when
  all the abscissae coincide). The fit and the prediction stand in a \<^verbatim>\<open>try\<close> block, so
  the regression is a parameter of the forecast: the fitted line, or the exception.
\<close>

record linear_model =
  coef :: real
  intercept :: real

definition linear_fit :: "real list \<Rightarrow> real list \<Rightarrow> linear_model" where
  "linear_fit xs ys =
     (let sxx = sum_list (map (\<lambda>x. (x - mean xs)\<^sup>2) xs);
          sxy = sum_list (map2 (\<lambda>x y. (x - mean xs) * (y - mean ys)) xs ys);
          slope = (if sxx = 0 then 0 else sxy / sxx)
      in \<lparr>coef = slope, intercept = mean ys - slope * mean xs\<rparr>)"

definition linear_predict :: "linear_model \<Rightarrow> real \<Rightarrow> real" where
  "linear_predict m x = intercept m + coef m * x"

definition clip :: "real \<Rightarrow> real \<Rightarrow> real \<Rightarrow> real" where
  "clip lo hi x = min hi (max lo x)"

text \<open>The observations of the last 30 days, in date order.\<close>

definition recent :: "int \<Rightarrow> real dict \<Rightarrow> (int \<times> real) list" where
  "recent today sentiment_data =
     filter (\<lambda>(d, s). d \<ge> today - 30) (sort_key fst sentiment_data)"

definition fallback_sentiment :: "int \<Rightarrow> real dict \<Rightarrow> real" where
  "fallback_sentiment today sentiment_data =
     (if map snd (recent today sentiment_data) \<noteq> [] then mean (map snd (recent today sentiment_data))
      else if sentiment_data \<noteq> [] then mean (map snd sentiment_data)
      else 0)"

text \<open>
  \<^verbatim>\<open>forecast_future_sentiment\<close>: neutral on an empty map, the flat fallback on fewer
  than five recent observations, else the clipped regression line; when the regression
  raises, the \<^verbatim>\<open>except\<close> branch returns the mean of the recent scores, unclipped.
\<close>

definition forecast_future_sentiment ::
  "(real list \<Rightarrow> real list \<Rightarrow> error + linear_model) \<Rightarrow> int \<Rightarrow> real dict \<Rightarrow> int list \<Rightarrow> real dict" where
  "forecast_future_sentiment regression today sentiment_data future_dates =
     (if sentiment_data = [] then dict_of (map (\<lambda>d. (d, 0)) future_dates)
      else if length (recent today sentiment_data) < 5
      then dict_of (map (\<lambda>d. (d, fallback_sentiment today sentiment_data)) future_dates)
      else
        (case regression (map (\<lambda>(d, s). real_of_int d) (recent today sentiment_data))
                         (map snd (recent today sentiment_data)) of
           Inl err \<Rightarrow>
             dict_of (map (\<lambda>d. (d, mean (map snd (recent today sentiment_data)))) future_dates)
         | Inr m \<Rightarrow>
             dict_of (zip future_dates
               (map (\<lambda>d. clip (- 1) 1 (linear_predict m (real_of_int d))) future_dates))))"

section \<open>Rounding to a double\<close>

text \<open>
  Rounding is modelled where a claim is an exact equality of floats: the continuity shift.
  \<open>fl x\<close> is the IEEE 754 binary64 number nearest to \<open>x\<close>, ties to even, with the exponent
  range taken unbounded: \<open>x\<close> with \<open>2^k \<le> |x| < 2^(k+1)\<close> is rounded to a multiple of
  \<open>2^(k-52)\<close>. On a sum or a difference of two doubles this is the double operation as
  long as the result does not overflow (a result in the subnormal range is exact in both).
\<close>

definition round_half_even :: "real \<Rightarrow> int" where
  "round_half_even y =
     (if y - of_int \<lfloor>y\<rfloor> < 1 / 2 then \<lfloor>y\<rfloor>
      else if 1 / 2 < y - of_int \<lfloor>y\<rfloor> then \<lfloor>y\<rfloor> + 1
      else if even \<lfloor>y\<rfloor> then \<lfloor>y\<rfloor>
      else \<lfloor>y\<rfloor> + 1)"

definition exponent :: "real \<Rightarrow> int" where
  "exponent x = \<lfloor>log 2 \<bar>x\<bar>\<rfloor>"

definition ulp :: "real \<Rightarrow> real" where
  "ulp x = 2 powi (exponent x - 52)"

definition fl :: "real \<Rightarrow> real" where
  "fl x = (if x = 0 then 0 else of_int (round_half_even (x / ulp x)) * ulp x)"

text \<open>The doubles: an integer of fewer than 54 bits times a power of two.\<close>

definition representable :: "real \<Rightarrow> bool" where
  "representable x = (\<exists>m e. \<bar>m\<bar> < 2 ^ 53 \<and> x = of_int m * 2 powi e)"

section \<open>predict_future\<close>

text \<open>
  What \<^verbatim>\<open>predict_future\<close> reads besides its arguments: the module flag
  \<^verbatim>\<open>PERFORM_SENTIMENT\<close>, the attribute \<^verbatim>\<open>self.sentiment_data\<close>, today's date, the
  model training (\<open>model_fit X_train y_train\<close> is the trained one-step predictor, or the
  exception of the training), the regression of the sentiment forecast, and the standard
  normal draws behind \<^verbatim>\<open>np.random.normal\<close> (draw \<open>i\<close> scaled by the standard deviation
  asked for is the noise on price \<open>i\<close>).
\<close>

record env =
  PERFORM_SENTIMENT :: bool
  sentiment_data :: "real dict"
  today :: int
  model_fit :: "matrix list \<Rightarrow> real list \<Rightarrow> error + (matrix \<Rightarrow> real)"
  linear_regression :: "real list \<Rightarrow> real list \<Rightarrow> error + linear_model"
  standard_normal :: "nat \<Rightarrow> real"

text \<open>The dates returned on the two failure paths.\<close>

definition failure_dates :: "env \<Rightarrow> frame \<Rightarrow> int list" where
  "failure_dates e training_data =
     bdate_range
       ((if \<not> empty_frame training_data then last (index training_data) else today e) + 1)
       prediction_days"

text \<open>
  \<^verbatim>\<open>training_data["close"].iloc[-1]\<close> reads the caller's frame, whose labels are not
  lower-cased: a missing label raises \<^verbatim>\<open>KeyError\<close>, and a label carried by several
  columns selects a sub-frame, on which the arithmetic that follows fails.
\<close>

definition last_actual_price :: "frame \<Rightarrow> error + real" where
  "last_actual_price training_data =
     (case filter (\<lambda>(n, c). n = ''close'') (columns training_data) of
        [] \<Rightarrow> Inl KeyError
      | [(n, c)] \<Rightarrow> (if c = [] then Inl IndexError else Inr (last c))
      | _ \<Rightarrow> Inl ValueError)"

text \<open>
  Step 7, the shift: \<^verbatim>\<open>price_shift = last_actual_price - predicted_prices[0]\<close> and
  \<^verbatim>\<open>adjusted_prices = predicted_prices + price_shift\<close>, a double subtraction and a
  double addition per price, each rounded. (The last close is a double; a prediction in
  single precision is a double too, and NumPy promotes it to one in both operations by
  its rules since version 2.) Reading element \<open>0\<close> of an empty path raises
  \<^verbatim>\<open>IndexError\<close>.
\<close>

definition shift_prices :: "real \<Rightarrow> real list \<Rightarrow> error + real list" where
  "shift_prices last_price predicted_prices =
     (case predicted_prices of
        [] \<Rightarrow> Inl IndexError
      | p0 # ps \<Rightarrow> Inr (map (\<lambda>p. fl (p + fl (last_price - p0))) predicted_prices))"

text \<open>Steps 6 and 7: inverse scaling with the scaler of the close column, then the shift.\<close>

definition adjust_forecast :: "scaler \<Rightarrow> real \<Rightarrow> real list \<Rightarrow> error + real list" where
  "adjust_forecast close_scaler last_price predicted_scaled_prices =
     shift_prices last_price
       (map (inverse_transform close_scaler) predicted_scaled_prices)"

text \<open>Step 9: the sentiment adjustment of each price by its date.\<close>

definition sentiment_weight :: real where
  "sentiment_weight = 5 / 1000"

definition incorporate_sentiment :: "env \<Rightarrow> int list \<Rightarrow> real list \<Rightarrow> real list" where
  "incorporate_sentiment e future_dates adjusted_prices =
     (if PERFORM_SENTIMENT e \<and> sentiment_data e \<noteq> []
      then
        (if forecast_future_sentiment (linear_regression e) (today e) (sentiment_data e) future_dates \<noteq> []
         then map2 (\<lambda>p d. p * (1 + sentiment_weight *
                      dict_get (forecast_future_sentiment (linear_regression e) (today e) (sentiment_data e) future_dates) d 0))
                adjusted_prices future_dates
         else adjusted_prices)
      else adjusted_prices)"

text \<open>
  Step 10: noise with standard deviation \<open>0.005\<close> times the mean price (a negative
  standard deviation makes \<^verbatim>\<open>np.random.normal\<close> raise \<^verbatim>\<open>ValueError\<close>), then the floor
  \<^verbatim>\<open>np.maximum(prices, 0.01)\<close>.
\<close>

definition add_noise :: "env \<Rightarrow> real list \<Rightarrow> error + real list" where
  "add_noise e final_adjusted_prices =
     (if mean final_adjusted_prices * (5 / 1000) < 0 then Inl ValueError
      else Inr (map (\<lambda>(i, p). max (p + mean final_adjusted_prices * (5 / 1000) * standard_normal e i)
                                 (1 / 100))
                    (enumerate 0 final_adjusted_prices)))"

text \<open>
  \<^verbatim>\<open>model.fit(..., validation_split=0.1)\<close> keeps the first \<open>\<lfloor>0.9 n\<rfloor>\<close> of the \<open>n\<close> windows
  for training and raises \<^verbatim>\<open>ValueError\<close> when that leaves no training window or no
  validation window.
\<close>

definition validation_split_ok :: "nat \<Rightarrow> bool" where
  "validation_split_ok n = ((9 * n) div 10 \<noteq> 0 \<and> (9 * n) div 10 \<noteq> n)"

text \<open>Steps 4 to 10, once the windows exist.\<close>

definition forecast ::
  "env \<Rightarrow> frame \<Rightarrow> nat \<Rightarrow> scaler \<Rightarrow> matrix \<Rightarrow> (matrix \<times> real) list \<Rightarrow> error + int list \<times> real list" where
  "forecast e training_data time_step close_scaler scaled_data windows =
     (if \<not> validation_split_ok (length windows) then Inl ValueError
      else
        (case model_fit e (map fst windows) (map snd windows) of
           Inl err \<Rightarrow> Inl err
         | Inr predict \<Rightarrow>
             if time_step = 0 then Inl ValueError
             else
               (case roll_loop predict prediction_days
                       ([], drop (length scaled_data - time_step) scaled_data) of
                  Inl err \<Rightarrow> Inl err
                | Inr (predicted_scaled_prices, batch) \<Rightarrow>
                    (case last_actual_price training_data of
                       Inl err \<Rightarrow> Inl err
                     | Inr last_price \<Rightarrow>
                         (case adjust_forecast close_scaler last_price predicted_scaled_prices of
                            Inl err \<Rightarrow> Inl err
                          | Inr adjusted_prices \<Rightarrow>
                              (case index training_data of
                                 [] \<Rightarrow> Inl IndexError
                               | d # ds \<Rightarrow>
                                   (case add_noise e
                                           (incorporate_sentiment e
                                              (bdate_range (last (d # ds) + 1) prediction_days)
                                              adjusted_prices) of
                                      Inl err \<Rightarrow> Inl err
                                    | Inr noisy_final_prices \<Rightarrow>
                                        Inr (bdate_range (last (d # ds) + 1) prediction_days,
                                             noisy_final_prices))))))))"

text \<open>
  \<^verbatim>\<open>predict_future\<close> returns the forecast dates and prices, or raises. The two early
  returns give the dates with an empty price array. The prices come back as a column
  vector (\<^verbatim>\<open>reshape(-1, 1)\<close>); the model keeps the list of its entries.
\<close>

definition predict_future :: "env \<Rightarrow> frame \<Rightarrow> nat \<Rightarrow> error + int list \<times> real list" where
  "predict_future e training_data time_step =
     (if compute_indicators training_data 20 20 = []
      then Inr (failure_dates e training_data, [])
      else
        (case fit (compute_indicators training_data 20 20) of
           Inl err \<Rightarrow> Inl err
         | Inr scalers \<Rightarrow>
             (case scalers of
                [] \<Rightarrow> Inl IndexError
              | close_scaler # others \<Rightarrow>
                  (if make_windows (transform_rows scalers (compute_indicators training_data 20 20))
                        time_step = []
                   then Inr (failure_dates e training_data, [])
                   else forecast e training_data time_step close_scaler
                          (transform_rows scalers (compute_indicators training_data 20 20))
                          (make_windows
                             (transform_rows scalers (compute_indicators training_data 20 20))
                             time_step)))))"

section \<open>Example inputs\<close>

text \<open>
  Two frames of twelve business days (from Monday 9 August 2021) with volume \<open>1000\<close>: closes rising from \<open>1\<close> to \<open>12\<close>,
  and falling from \<open>12\<close> to \<open>1\<close>. The labels have the capitals of the data provider.
\<close>

definition rising_frame :: frame where
  "rising_frame =
     \<lparr>index = [738011, 738012, 738013, 738014, 738015, 738018, 738019, 738020, 738021, 738022, 738025, 738026],
      columns = [(''Close'', [1, 2, 3, 4, 5, 6, 7, 8, 9, 10, 11, 12]),
                 (''High'', [2, 3, 4, 5, 6, 7, 8, 9, 10, 11, 12, 13]),
                 (''Low'', [0, 1, 2, 3, 4, 5, 6, 7, 8, 9, 10, 11]),
                 (''Volume'', [1000, 1000, 1000, 1000, 1000, 1000, 1000, 1000, 1000, 1000, 1000, 1000])]\<rparr>"

definition falling_frame :: frame where
  "falling_frame =
     \<lparr>index = [738011, 738012, 738013, 738014, 738015, 738018, 738019, 738020, 738021, 738022, 738025, 738026],
      columns = [(''Close'', [12, 11, 10, 9, 8, 7, 6, 5, 4, 3, 2, 1]),
                 (''High'', [13, 12, 11, 10, 9, 8, 7, 6, 5, 4, 3, 2]),
                 (''Low'', [11, 10, 9, 8, 7, 6, 5, 4, 3, 2, 1, 0]),
                 (''Volume'', [1000, 1000, 1000, 1000, 1000, 1000, 1000, 1000, 1000, 1000, 1000, 1000])]\<rparr>"

text \<open>
  Twenty-two business days with closes rising by one a day from \<open>101\<close> to \<open>122\<close>, and a
  run of \<^verbatim>\<open>predict_future\<close> on them: sentiment switched on with one recent observation, a
  predictor that adds an eighth to the last scaled close, a regression that is the
  least-squares line, and normal draws of alternating sign.
\<close>

definition linear_frame :: frame where
  "linear_frame =
     \<lparr>index = [738011, 738012, 738013, 738014, 738015, 738018, 738019, 738020, 738021, 738022, 738025, 738026, 738027, 738028, 738029, 738032, 738033, 738034, 738035, 738036, 738039, 738040],
      columns = [(''close'', [101, 102, 103, 104, 105, 106, 107, 108, 109, 110, 111, 112, 113, 114, 115, 116, 117, 118, 119, 120, 121, 122]),
                 (''high'', [102, 103, 104, 105, 106, 107, 108, 109, 110, 111, 112, 113, 114, 115, 116, 117, 118, 119, 120, 121, 122, 123]),
                 (''low'', [100, 101, 102, 103, 104, 105, 106, 107, 108, 109, 110, 111, 112, 113, 114, 115, 116, 117, 118, 119, 120, 121]),
                 (''volume'', [1000, 1000, 1000, 1000, 1000, 1000, 1000, 1000, 1000, 1000, 1000, 1000, 1000, 1000, 1000, 1000, 1000, 1000, 1000, 1000, 1000, 1000])]\<rparr>"

definition example_env :: env where
  "example_env =
     \<lparr>PERFORM_SENTIMENT = True,
      sentiment_data = [(738035, 1 / 2)],
      today = 738040,
      model_fit = (\<lambda>X_train y_train. Inr (\<lambda>batch. hd (last batch) + 1 / 8)),
      linear_regression = (\<lambda>xs ys. Inr (linear_fit xs ys)),
      standard_normal = (\<lambda>i. if even i then 1 else - 1)\<rparr>"

text \<open>The same environment with the sentiment adjustment off and every normal draw \<open>0\<close>.\<close>

definition quiet_env :: env where
  "quiet_env = example_env\<lparr>PERFORM_SENTIMENT := False, standard_normal := \<lambda>i. 0\<rparr>"

text \<open>
  Three frames that cannot be forecast: the frame without rows and columns that the
  data provider returns on failure (\<^verbatim>\<open>pd.DataFrame()\<close>), a frame with one dated row and
  no column, and a frame of two rows without a volume column.
\<close>

definition no_data_frame :: frame where
  "no_data_frame = \<lparr>index = [], columns = []\<rparr>"

definition columnless_frame :: frame where
  "columnless_frame = \<lparr>index = [738011], columns = []\<rparr>"

definition no_volume_frame :: frame where
  "no_volume_frame =
     \<lparr>index = [738011, 738012],
      columns = [(''close'', [101, 102]), (''high'', [102, 103]), (''low'', [100, 101])]\<rparr>"

section \<open>Notions used in the proofs\<close>

text \<open>
  A series is non-negative when each of its defined cells is; the state of the
  exponentially weighted mean is sound when its weight and its running mean are
  non-negative; \<open>rsi_cell\<close> is one row of \<^verbatim>\<open>compute_rsi\<close>, from the two smoothed
  averages of that row.
\<close>

definition nonneg_cells :: "series \<Rightarrow> bool" where
  "nonneg_cells s = (\<forall>x. Some x \<in> set s \<longrightarrow> 0 \<le> x)"

definition ewm_inv :: "ewm_state \<Rightarrow> bool" where
  "ewm_inv st = (0 \<le> old_wt st \<and> (\<forall>w. weighted st = Some w \<longrightarrow> 0 \<le> w))"

definition rsi_cell :: "cell \<Rightarrow> cell \<Rightarrow> cell" where
  "rsi_cell g l =
     (case nan_lift2 (/) g (if l = Some 0 then None else l) of
        None \<Rightarrow> Some 100
      | Some r \<Rightarrow> Some (100 - 100 / (1 + r)))"

section \<open>Properties of the rounding\<close>

text \<open>
  The rounding error is at most half a unit in the last place, a double is rounded to
  itself, and the difference of two doubles within a factor two of each other is a double.
\<close>

lemma powr_powi: "(2::real) powr (of_int k) = 2 powi k"
  by (simp add: powr_real_of_int power_int_def power_one_over inverse_eq_divide)

lemma exponent_eqI:
  assumes "2 powi k \<le> \<bar>x\<bar>" "\<bar>x\<bar> < 2 powi (k + 1)"
  shows "exponent x = k"
proof -
  have "(0::real) < 2 powi k" by simp
  with assms(1) have pos: "0 < \<bar>x\<bar>" by linarith
  have "2 powr (of_int k) \<le> \<bar>x\<bar>" "\<bar>x\<bar> < 2 powr (of_int (k + 1))"
    using assms by (simp_all only: powr_powi)
  then show ?thesis
    unfolding exponent_def using floor_log_eq_powr_iff[OF pos, of 2 k] by simp
qed

lemma exponent_bounds:
  assumes "x \<noteq> 0"
  shows "2 powi exponent x \<le> \<bar>x\<bar>" "\<bar>x\<bar> < 2 powi (exponent x + 1)"
proof -
  have pos: "0 < \<bar>x\<bar>" using assms by simp
  from floor_log_eq_powr_iff[OF pos, of 2 "exponent x"]
  have "2 powr (of_int (exponent x)) \<le> \<bar>x\<bar> \<and> \<bar>x\<bar> < 2 powr (of_int (exponent x + 1))"
    by (simp add: exponent_def)
  then show "2 powi exponent x \<le> \<bar>x\<bar>" "\<bar>x\<bar> < 2 powi (exponent x + 1)"
    by (simp_all only: powr_powi)
qed

lemma ulp_pos: "0 < ulp x"
  by (simp add: ulp_def)

lemma round_half_even_error: "\<bar>of_int (round_half_even y) - y\<bar> \<le> 1 / 2"
  unfolding round_half_even_def by (auto simp: abs_if) linarith+

lemma round_half_even_int: "round_half_even (of_int n) = n"
  by (simp add: round_half_even_def)


lemma fl_error_ulp: "\<bar>fl x - x\<bar> \<le> ulp x / 2"
proof (cases "x = 0")
  case True
  then show ?thesis using ulp_pos[of x] by (simp add: fl_def)
next
  case False
  let ?y = "x / ulp x"
  have u: "0 < ulp x" by (rule ulp_pos)
  have "fl x - x = (of_int (round_half_even ?y) - ?y) * ulp x"
    using False u by (simp add: fl_def algebra_simps)
  then have "\<bar>fl x - x\<bar> = \<bar>of_int (round_half_even ?y) - ?y\<bar> * ulp x"
    using u by (simp add: abs_mult)
  also have "\<dots> \<le> (1 / 2) * ulp x"
    using round_half_even_error[of ?y] u by (intro mult_right_mono) simp_all
  finally show ?thesis by simp
qed

lemma ulp_le: "x \<noteq> 0 \<Longrightarrow> ulp x \<le> \<bar>x\<bar> / 2 ^ 52"
proof -
  assume "x \<noteq> 0"
  then have "2 powi exponent x \<le> \<bar>x\<bar>" by (rule exponent_bounds)
  moreover have "ulp x = 2 powi exponent x / 2 ^ 52"
    by (simp add: ulp_def power_int_diff)
  ultimately show ?thesis by (simp add: divide_right_mono)
qed

lemma fl_error: "\<bar>fl x - x\<bar> \<le> \<bar>x\<bar> / 2 ^ 53"
proof (cases "x = 0")
  case True
  then show ?thesis by (simp add: fl_def)
next
  case False
  have "\<bar>fl x - x\<bar> \<le> ulp x / 2" by (rule fl_error_ulp)
  also have "\<dots> \<le> (\<bar>x\<bar> / 2 ^ 52) / 2" using ulp_le[OF False] by simp
  also have "\<dots> = \<bar>x\<bar> / 2 ^ 53" by simp
  finally show ?thesis .
qed

lemma fl_representable:
  assumes "representable x"
  shows "fl x = x"
proof (cases "x = 0")
  case True
  then show ?thesis by (simp add: fl_def)
next
  case False
  from assms obtain m e where m: "\<bar>m\<bar> < 2 ^ 53" and x: "x = of_int m * 2 powi e"
    by (auto simp: representable_def)
  have "\<bar>x\<bar> = of_int \<bar>m\<bar> * 2 powi e" by (simp add: x abs_mult)
  also have "\<dots> < 2 ^ 53 * 2 powi e"
  proof -
    have "(of_int \<bar>m\<bar> :: real) < of_int (2 ^ 53)" using m by (simp only: of_int_less_iff)
    then show ?thesis by (intro mult_strict_right_mono) simp_all
  qed
  also have "\<dots> = 2 powi (53 + e)" by (simp add: power_int_add)
  finally have "2 powi exponent x < (2::real) powi (53 + e)"
    using exponent_bounds(1)[OF False] by linarith
  then have "exponent x < 53 + e"
    using power_int_increasing[of "53 + e" "exponent x" "2::real"] by (cases "exponent x < 53 + e") auto
  then have "0 \<le> e - (exponent x - 52)" by simp
  then obtain n where n: "e - (exponent x - 52) = int n"
    using zero_le_imp_eq_int by blast
  have "x / ulp x = of_int m * 2 powi (e - (exponent x - 52))"
    by (simp add: x ulp_def power_int_diff)
  also have "\<dots> = of_int (m * 2 ^ n)" by (simp add: n)
  finally have "round_half_even (x / ulp x) = m * 2 ^ n" by (simp only: round_half_even_int)
  then have "fl x = of_int (m * 2 ^ n) * ulp x" using False by (simp add: fl_def)
  also have "\<dots> = of_int m * (2 powi (e - (exponent x - 52)) * 2 powi (exponent x - 52))"
    by (simp add: n ulp_def)
  also have "\<dots> = of_int m * 2 powi e"
    by (simp add: power_int_add[symmetric])
  finally show ?thesis by (simp add: x)
qed


lemma representableI: "\<bar>m\<bar> < 2 ^ 53 \<Longrightarrow> x = of_int m * 2 powi e \<Longrightarrow> representable x"
  by (auto simp: representable_def)

lemma representable_scaled:
  assumes "x = of_int N * 2 powi e" "\<bar>x\<bar> \<le> of_int \<bar>m\<bar> * 2 powi e" "\<bar>m\<bar> < 2 ^ 53"
  shows "representable x"
proof -
  have "of_int \<bar>N\<bar> * (2::real) powi e \<le> of_int \<bar>m\<bar> * 2 powi e"
    using assms(1,2) by (simp add: abs_mult)
  then have "(of_int \<bar>N\<bar> :: real) \<le> of_int \<bar>m\<bar>"
    by (simp add: mult_le_cancel_right)
  then have "\<bar>N\<bar> \<le> \<bar>m\<bar>" by (simp only: of_int_le_iff)
  with assms(3) have "\<bar>N\<bar> < 2 ^ 53" by simp
  then show ?thesis using assms(1) by (rule representableI)
qed

lemma representable_diff:
  assumes x: "representable x" and y: "representable y"
    and pos: "0 < y" and lo: "y / 2 \<le> x" and hi: "x \<le> 2 * y"
  shows "representable (y - x)"
proof -
  from x obtain m e where m: "\<bar>m\<bar> < 2 ^ 53" and xe: "x = of_int m * 2 powi e"
    by (auto simp: representable_def)
  from y obtain n f where n: "\<bar>n\<bar> < 2 ^ 53" and yf: "y = of_int n * 2 powi f"
    by (auto simp: representable_def)
  have xpos: "0 < x" using pos lo by simp
  have dx: "\<bar>y - x\<bar> \<le> \<bar>x\<bar>" and dy: "\<bar>y - x\<bar> \<le> \<bar>y\<bar>"
    using pos lo hi by (simp_all add: abs_if)
  show ?thesis
  proof (cases "e \<le> f")
    case True
    then obtain k where k: "f - e = int k" using zero_le_imp_eq_int[of "f - e"] by auto
    have "(2::real) powi f = 2 powi (f - e) * 2 powi e" by (simp add: power_int_add[symmetric])
    then have "y = of_int (n * 2 ^ k) * 2 powi e" by (simp add: yf k)
    then have "y - x = of_int (n * 2 ^ k - m) * 2 powi e" by (simp add: xe algebra_simps)
    moreover have "\<bar>y - x\<bar> \<le> of_int \<bar>m\<bar> * 2 powi e" using dx by (simp add: xe abs_mult)
    ultimately show ?thesis using m by (rule representable_scaled)
  next
    case False
    then obtain k where k: "e - f = int k" using zero_le_imp_eq_int[of "e - f"] by auto
    have "(2::real) powi e = 2 powi (e - f) * 2 powi f" by (simp add: power_int_add[symmetric])
    then have "x = of_int (m * 2 ^ k) * 2 powi f" by (simp add: xe k)
    then have "y - x = of_int (n - m * 2 ^ k) * 2 powi f" by (simp add: yf algebra_simps)
    moreover have "\<bar>y - x\<bar> \<le> of_int \<bar>n\<bar> * 2 powi f" using dy by (simp add: yf abs_mult)
    ultimately show ?thesis using n by (rule representable_scaled)
  qed
qed

lemma shift_exact:
  assumes "representable p0" "representable c" "0 < c" "c / 2 \<le> p0" "p0 \<le> 2 * c"
  shows "fl (p0 + fl (c - p0)) = c"
proof -
  have "fl (c - p0) = c - p0" using assms by (intro fl_representable representable_diff)
  then show ?thesis using fl_representable[OF assms(2)] by simp
qed

lemma shift_error:
  "\<bar>fl (p0 + fl (c - p0)) - c\<bar> \<le> \<bar>c\<bar> / 2 ^ 53 + (1 / 2 ^ 53 + 1 / 2 ^ 106) * \<bar>c - p0\<bar>"
proof -
  let ?s = "fl (c - p0)"
  have s: "\<bar>?s - (c - p0)\<bar> \<le> \<bar>c - p0\<bar> / 2 ^ 53" by (rule fl_error)
  have "\<bar>p0 + ?s\<bar> \<le> \<bar>c\<bar> + \<bar>?s - (c - p0)\<bar>" by simp
  with s have sum: "\<bar>p0 + ?s\<bar> \<le> \<bar>c\<bar> + \<bar>c - p0\<bar> / 2 ^ 53" by linarith
  have "\<bar>fl (p0 + ?s) - (p0 + ?s)\<bar> \<le> \<bar>p0 + ?s\<bar> / 2 ^ 53" by (rule fl_error)
  also have "\<dots> \<le> (\<bar>c\<bar> + \<bar>c - p0\<bar> / 2 ^ 53) / 2 ^ 53"
    using sum by (simp add: divide_right_mono)
  finally have r: "\<bar>fl (p0 + ?s) - (p0 + ?s)\<bar> \<le> (\<bar>c\<bar> + \<bar>c - p0\<bar> / 2 ^ 53) / 2 ^ 53" .
  have "\<bar>fl (p0 + ?s) - c\<bar> \<le> \<bar>fl (p0 + ?s) - (p0 + ?s)\<bar> + \<bar>?s - (c - p0)\<bar>" by simp
  with r s have "\<bar>fl (p0 + ?s) - c\<bar> \<le> (\<bar>c\<bar> + \<bar>c - p0\<bar> / 2 ^ 53) / 2 ^ 53 + \<bar>c - p0\<bar> / 2 ^ 53"
    by linarith
  also have "\<dots> = \<bar>c\<bar> / 2 ^ 53 + (1 / 2 ^ 53 + 1 / 2 ^ 106) * \<bar>c - p0\<bar>"
    by (simp add: field_simps)
  finally show ?thesis .
qed

lemma fl_eval:
  assumes "2 powi k \<le> \<bar>x\<bar>" "\<bar>x\<bar> < 2 powi (k + 1)" "round_half_even (x / 2 powi (k - 52)) = n"
  shows "fl x = of_int n * 2 powi (k - 52)"
proof -
  have e: "exponent x = k" using assms(1,2) by (rule exponent_eqI)
  have k: "(0::real) < 2 powi k" by simp
  have "x \<noteq> 0"
  proof
    assume "x = 0"
    with assms(1) have "2 powi k \<le> (0::real)" by simp
    with k show False by linarith
  qed
  then show ?thesis by (simp add: fl_def ulp_def e assms(3))
qed

lemma fl_quarters: "\<bar>m\<bar> < 2 ^ 53 \<Longrightarrow> fl (of_int m / 4) = of_int m / 4"
  by (rule fl_representable, rule representableI[where m = m and e = "- 2"])
     (simp_all add: power_int_minus)

section \<open>Window construction\<close>

lemma make_windows_length: "length (make_windows m T) = length m - T"
  by (simp add: make_windows_def)

lemma take_drop_rows:
  "k + T \<le> length m \<Longrightarrow> take T (drop k m) = map (\<lambda>j. m ! j) [k..<k + T]"
proof -
  assume le: "k + T \<le> length m"
  have "length (take T (drop k m)) = T" using le by simp
  moreover have "\<And>j. j < T \<Longrightarrow> take T (drop k m) ! j = m ! (k + j)" using le by simp
  ultimately show ?thesis
    by (intro nth_equalityI) (auto simp: add.commute)
qed

text \<open>
  C2. For a scaled matrix of \<open>L\<close> rows and window length \<open>T\<close> the sequence construction
  yields \<open>L - T\<close> pairs when \<open>T < L\<close> and none otherwise; the pair built at row \<open>i\<close>
  (\<open>T \<le> i < L\<close>) is the window of the rows \<open>i - T, \<dots>, i - 1\<close>, whole, with the label
  \<open>m[i][0]\<close>.
\<close>

theorem make_windows_pairs:
  "length (make_windows m T) = (if T < length m then length m - T else 0) \<and>
   (\<forall>i. T \<le> i \<and> i < length m \<longrightarrow>
      make_windows m T ! (i - T) = (map (\<lambda>j. m ! j) [i - T..<i], m ! i ! 0))"
proof (intro conjI allI impI)
  show "length (make_windows m T) = (if T < length m then length m - T else 0)"
    by (simp add: make_windows_length)
next
  fix i assume i: "T \<le> i \<and> i < length m"
  then have "i - T < length [T..<length m]" "[T..<length m] ! (i - T) = i"
    by auto
  then have "make_windows m T ! (i - T) = (take T (drop (i - T) m), m ! i ! 0)"
    unfolding make_windows_def by (simp only: nth_map)
  moreover have "take T (drop (i - T) m) = map (\<lambda>j. m ! j) [i - T..<i]"
    using take_drop_rows[of "i - T" T m] i by simp
  ultimately show "make_windows m T ! (i - T) = (map (\<lambda>j. m ! j) [i - T..<i], m ! i ! 0)"
    by simp
qed

theorem make_windows_pairs_witness:
  "length (make_windows [[1, 5], [2, 6], [3, 7], [4, 8]] 2) = 2 \<and>
   make_windows [[1, 5], [2, 6], [3, 7], [4, 8::real]] 2 ! (3 - 2) = ([[2, 6], [3, 7]], 4) \<and>
   make_windows [[1, 5], [2, 6], [3, 7], [4, 8::real]] 2 = [([[1, 5], [2, 6]], 3), ([[2, 6], [3, 7]], 4)] \<and>
   make_windows [[1, 5], [2, 6 :: real]] 2 = []"
proof -
  have "(2::nat) \<le> 3 \<and> 3 < length [[1, 5], [2, 6], [3, 7], [4, 8::real]]" by simp
  with make_windows_pairs[of "[[1, 5], [2, 6], [3, 7], [4, 8]]" 2]
  have "make_windows [[1, 5], [2, 6], [3, 7], [4, 8::real]] 2 ! (3 - 2) =
        (map (\<lambda>j. [[1, 5], [2, 6], [3, 7], [4, 8::real]] ! j) [3 - 2..<3], [[1, 5], [2, 6], [3, 7], [4, 8::real]] ! 3 ! 0)"
    by blast
  moreover have "make_windows [[1, 5], [2, 6], [3, 7], [4, 8::real]] 2 = [([[1, 5], [2, 6]], 3), ([[2, 6], [3, 7]], 4)]"
    by (simp add: make_windows_def upt_rec)
  moreover have "make_windows [[1, 5], [2, 6 :: real]] 2 = []"
    by (simp add: make_windows_def)
  ultimately show ?thesis by (simp add: upt_rec)
qed

section \<open>Monotonicity of the on-balance volume\<close>

lemma obv_loop_length: "length (obv_loop pc po rest) = length rest"
  by (induction rest arbitrary: pc po) auto

lemma obv_loop_rising:
  "sorted_wrt (<) (pc # map fst rest) \<Longrightarrow> \<forall>v\<in>set (map snd rest). 0 \<le> v \<Longrightarrow>
   sorted (po # obv_loop pc po rest)"
proof (induction rest arbitrary: pc po)
  case Nil
  then show ?case by simp
next
  case (Cons a rest)
  obtain c v where a: "a = (c, v)" by (cases a)
  from Cons.prems a have up: "pc < c" and v: "0 \<le> v" by auto
  from Cons.prems a have "sorted_wrt (<) (c # map fst rest)" "\<forall>v\<in>set (map snd rest). 0 \<le> v"
    by auto
  from Cons.IH[OF this] have ih: "sorted ((po + v) # obv_loop c (po + v) rest)" .
  have nx: "obv_next pc po c v = po + v" using up by (simp add: obv_next_def)
  show ?case using ih v by (auto simp: a nx)
qed

lemma obv_loop_falling:
  "sorted_wrt (>) (pc # map fst rest) \<Longrightarrow> \<forall>v\<in>set (map snd rest). 0 \<le> v \<Longrightarrow>
   sorted_wrt (\<ge>) (po # obv_loop pc po rest)"
proof (induction rest arbitrary: pc po)
  case Nil
  then show ?case by simp
next
  case (Cons a rest)
  obtain c v where a: "a = (c, v)" by (cases a)
  from Cons.prems a have down: "c < pc" and v: "0 \<le> v" by auto
  from Cons.prems a have "sorted_wrt (>) (c # map fst rest)" "\<forall>v\<in>set (map snd rest). 0 \<le> v"
    by auto
  from Cons.IH[OF this] have ih: "sorted_wrt (\<ge>) ((po - v) # obv_loop c (po - v) rest)" .
  have nx: "obv_next pc po c v = po - v" using down by (simp add: obv_next_def)
  show ?case using ih v by (auto simp: a nx)
qed

lemma obv_rising:
  assumes "sorted_wrt (<) close" "length volume = length close" "\<forall>v\<in>set volume. 0 \<le> v"
  shows "sorted (obv close volume)"
proof (cases close)
  case Nil
  then show ?thesis by (simp add: obv_def)
next
  case (Cons c0 cs)
  with assms(2) obtain v0 vs where vol: "volume = v0 # vs" "length vs = length cs"
    by (cases volume) auto
  have "sorted_wrt (<) (c0 # map fst (zip cs vs))" using assms(1) Cons vol by simp
  moreover have "\<forall>v\<in>set (map snd (zip cs vs)). 0 \<le> v" using assms(3) vol by simp
  ultimately have "sorted (0 # obv_loop c0 0 (zip cs vs))" by (rule obv_loop_rising)
  then show ?thesis by (simp add: obv_def Cons vol)
qed

lemma obv_falling:
  assumes "sorted_wrt (>) close" "length volume = length close" "\<forall>v\<in>set volume. 0 \<le> v"
  shows "sorted_wrt (\<ge>) (obv close volume)"
proof (cases close)
  case Nil
  then show ?thesis by (simp add: obv_def)
next
  case (Cons c0 cs)
  with assms(2) obtain v0 vs where vol: "volume = v0 # vs" "length vs = length cs"
    by (cases volume) auto
  have "sorted_wrt (>) (c0 # map fst (zip cs vs))" using assms(1) Cons vol by simp
  moreover have "\<forall>v\<in>set (map snd (zip cs vs)). 0 \<le> v" using assms(3) vol by simp
  ultimately have "sorted_wrt (\<ge>) (0 # obv_loop c0 0 (zip cs vs))" by (rule obv_loop_falling)
  then show ?thesis by (simp add: obv_def Cons vol)
qed

lemma obv_length: "length volume = length close \<Longrightarrow> length (obv close volume) = length close"
  by (cases close; cases volume) (auto simp: obv_def obv_loop_length)

lemma handle_zeros_pos: "0 < handle_zeros_in_scale r"
  by (simp add: handle_zeros_in_scale_def float_eps_def not_less) 

lemma minmax_fit_scale_pos: "minmax_fit xs = Inr sc \<Longrightarrow> 0 < scale_attr sc"
  by (cases xs) (auto simp: fit_column_def handle_zeros_pos)

lemma transform_mono: "0 < scale_attr sc \<Longrightarrow> x \<le> y \<Longrightarrow> transform sc x \<le> transform sc y"
  by (simp add: transform_def)


lemma transform_anti: "0 < scale_attr sc \<Longrightarrow> y \<le> x \<Longrightarrow> transform sc y \<le> transform sc x"
  by (simp add: transform_def)

lemma defined_values_map_Some: "defined_values (map Some xs) = xs"
  by (induction xs) (auto simp: defined_values_def)

lemma obv_scaled_shape:
  assumes "obv_scaled close volume = Inr col"
  shows "\<exists>sc. 0 < scale_attr sc \<and> col = map Some (map (transform sc) (obv close volume))"
proof -
  from assms have ne: "obv close volume \<noteq> []"
    by (auto simp: obv_scaled_def minmax_fit_transform_column_def split: if_splits)
  then obtain sc where sc: "minmax_fit (obv close volume) = Inr sc"
    by (cases "obv close volume") auto
  from assms ne sc have "col = map (map_option (transform sc)) (map Some (obv close volume))"
    by (simp add: obv_scaled_def minmax_fit_transform_column_def defined_values_map_Some)
  with minmax_fit_scale_pos[OF sc] show ?thesis by (auto simp: comp_def)
qed

lemma sorted_wrt_map_mono:
  "sorted_wrt P xs \<Longrightarrow> (\<And>x y. P x y \<Longrightarrow> Q (f x) (f y)) \<Longrightarrow> sorted_wrt Q (map f xs)"
  by (induction xs) auto

lemma rows_of_row_length: "r \<in> set (rows_of cols) \<Longrightarrow> length r = length cols"
proof (induction cols arbitrary: r rule: rows_of.induct)
  case 1
  then show ?case by simp
next
  case (2 c)
  then show ?case by auto
next
  case (3 c v va)
  from "3.prems" obtain x r' where "r = x # r'" "r' \<in> set (rows_of (v # va))"
    by (auto simp: set_zip)
  with "3.IH" show ?case by simp
qed

lemma rows_of_column:
  "j < length cols \<Longrightarrow> map (\<lambda>r. r ! j) (rows_of cols) = take (length (rows_of cols)) (cols ! j)"
proof (induction cols arbitrary: j rule: rows_of.induct)
  case 1
  then show ?case by simp
next
  case (2 c)
  then show ?case by (simp add: comp_def)
next
  case (3 c v va)
  let ?R = "rows_of (v # va)"
  show ?case
  proof (cases j)
    case 0
    have "map (\<lambda>r. r ! 0) (map2 (#) c ?R) = map fst (zip c ?R)"
      by (simp add: case_prod_beta comp_def)
    also have "\<dots> = take (length ?R) c"
      by (cases "length c \<le> length ?R") (simp_all add: map_fst_zip_take min_def)
    also have "\<dots> = take (length (map2 (#) c ?R)) c"
      by (simp add: min_def)
    finally show ?thesis using 0 by simp
  next
    case (Suc k)
    with "3.prems" have k: "k < length (v # va)" by simp
    have "map (\<lambda>r. r ! Suc k) (map2 (#) c ?R) = map (\<lambda>r. r ! k) (map snd (zip c ?R))"
      by (simp add: case_prod_beta comp_def)
    also have "\<dots> = map (\<lambda>r. r ! k) (take (length c) ?R)"
      by (cases "length c \<le> length ?R") (simp_all add: map_snd_zip_take min_def)
    also have "\<dots> = take (length c) (take (length ?R) ((v # va) ! k))"
      using "3.IH"[OF k] by (simp add: take_map[symmetric])
    also have "\<dots> = take (length (map2 (#) c ?R)) ((v # va) ! k)"
      by (simp add: min_def)
    finally show ?thesis using Suc by simp
  qed
qed

lemma those_nth: "those r = Some xs \<Longrightarrow> j < length r \<Longrightarrow> r ! j = Some (xs ! j)"
proof (induction r arbitrary: xs j)
  case Nil
  then show ?case by simp
next
  case (Cons a r)
  then show ?case by (cases j) (auto split: option.splits)
qed

lemma those_length: "those r = Some xs \<Longrightarrow> length xs = length r"
  by (induction r arbitrary: xs) (auto split: option.splits)

lemma column_map_filter_those:
  assumes "map (\<lambda>r. r ! j) R = map Some zs" "\<forall>r\<in>set R. j < length r" "sorted_wrt P zs"
  shows "sorted_wrt P (column j (List.map_filter those R)) \<and>
         set (column j (List.map_filter those R)) \<subseteq> set zs"
  using assms
proof (induction R arbitrary: zs)
  case Nil
  then show ?case by (simp add: column_def)
next
  case (Cons r R)
  from Cons.prems(1) obtain z zs' where zs: "zs = z # zs'" "r ! j = Some z"
    "map (\<lambda>r. r ! j) R = map Some zs'" by (cases zs) auto
  from Cons.prems zs have "\<forall>r\<in>set R. j < length r" "sorted_wrt P zs'" by auto
  from Cons.IH[OF zs(3) this]
  have ih: "sorted_wrt P (column j (List.map_filter those R))"
    "set (column j (List.map_filter those R)) \<subseteq> set zs'" by auto
  show ?case
  proof (cases "those r")
    case None
    with ih zs show ?thesis by auto
  next
    case (Some xs)
    from those_nth[OF Some] Cons.prems(2) zs(2) have "xs ! j = z" by auto
    moreover from Cons.prems(3) zs(1) have "\<forall>y\<in>set zs'. P z y" by simp
    ultimately show ?thesis using ih zs Some
      by (auto simp: column_def)
  qed
qed

lemma dropna_column_sorted:
  assumes j: "j < length cols" and col: "cols ! j = map Some ys" and s: "sorted_wrt P ys"
  shows "sorted_wrt P (column j (dropna cols))"
proof -
  let ?R = "rows_of cols"
  have "map (\<lambda>r. r ! j) ?R = map Some (take (length ?R) ys)"
    using rows_of_column[OF j] col by (simp add: take_map)
  moreover have "\<forall>r\<in>set ?R. j < length r" using rows_of_row_length j by auto
  moreover have "sorted_wrt P (take (length ?R) ys)" using s by (rule sorted_wrt_take)
  ultimately show ?thesis
    unfolding dropna_def using column_map_filter_those by blast
qed


lemma drop_duplicated_subset: "set (drop_duplicated seen xs) \<subseteq> set xs"
  by (induction seen xs rule: drop_duplicated.induct) auto

lemma normalize_columns_length:
  assumes "wf_frame df" "map_of (normalize_columns df) k = Some c"
  shows "length c = length (index df)"
proof -
  from assms(2) have "(k, c) \<in> set (normalize_columns df)" by (rule map_of_SomeD)
  then have "(k, c) \<in> set (map (\<lambda>(n, c). (lower n, c)) (columns df))"
    unfolding normalize_columns_def using drop_duplicated_subset by blast
  then obtain n where "(n, c) \<in> set (columns df)" by auto
  with assms(1) show ?thesis by (auto simp: wf_frame_def list_all_iff)
qed

lemma feature_columns_shape:
  assumes "feature_columns close high low volume vw ew = Inr cols"
  shows "length cols = 9 \<and> (\<exists>col. obv_scaled close volume = Inr col \<and> cols ! 5 = col)"
  using assms
  by (auto simp: feature_columns_def split: if_splits sum.splits)

lemma compute_indicators_cases:
  "compute_indicators df vw ew = [] \<or>
   (\<exists>close high low volume cols.
      map_of (normalize_columns df) ''close'' = Some close \<and>
      map_of (normalize_columns df) ''high'' = Some high \<and>
      map_of (normalize_columns df) ''low'' = Some low \<and>
      map_of (normalize_columns df) ''volume'' = Some volume \<and>
      feature_columns close high low volume vw ew = Inr cols \<and>
      compute_indicators df vw ew = dropna cols)"
  by (auto simp: compute_indicators_def Let_def split: option.splits sum.splits)

lemma obv_feature_sorted:
  assumes wf: "wf_frame df"
    and cl: "map_of (normalize_columns df) ''close'' = Some close"
    and vo: "map_of (normalize_columns df) ''volume'' = Some volume"
    and s: "sorted_wrt P (obv close volume)"
    and mono: "\<And>sc x y. 0 < scale_attr sc \<Longrightarrow> P x y \<Longrightarrow> P (transform sc x) (transform sc y)"
  shows "sorted_wrt P (column 5 (compute_indicators df vw ew))"
proof -
  consider (e) "compute_indicators df vw ew = []"
    | (f) high low cols where "feature_columns close high low volume vw ew = Inr cols"
        "compute_indicators df vw ew = dropna cols"
    using compute_indicators_cases[of df vw ew] cl vo by auto
  then show ?thesis
  proof cases
    case e
    then show ?thesis by (simp add: column_def)
  next
    case f
    from feature_columns_shape[OF f(1)] obtain col where
      n: "length cols = 9" and c: "obv_scaled close volume = Inr col" "cols ! 5 = col" by auto
    from obv_scaled_shape[OF c(1)] obtain sc where
      sc: "0 < scale_attr sc" "col = map Some (map (transform sc) (obv close volume))" by auto
    have "sorted_wrt P (map (transform sc) (obv close volume))"
      using s mono[OF sc(1)] by (rule sorted_wrt_map_mono)
    moreover have "5 < length cols" using n by simp
    moreover have "cols ! 5 = map Some (map (transform sc) (obv close volume))"
      using c(2) sc(2) by simp
    ultimately have "sorted_wrt P (column 5 (dropna cols))"
      using dropna_column_sorted by blast
    with f(2) show ?thesis by simp
  qed
qed

text \<open>
  C8. In a well-formed frame whose volume is one non-negative constant, strictly rising
  closes make the on-balance volume non-decreasing, and strictly falling closes make it
  non-increasing; the same holds for the OBV column (index 5) of the feature matrix that
  the indicator engine returns, after the min-max scaling and the dropping of rows.
\<close>

theorem obv_monotonic:
  assumes wf: "wf_frame df"
    and cl: "map_of (normalize_columns df) ''close'' = Some close"
    and vo: "map_of (normalize_columns df) ''volume'' = Some volume"
    and const: "\<forall>v\<in>set volume. v = c" and nonneg: "0 \<le> c"
  shows "(sorted_wrt (<) close \<longrightarrow>
            sorted (obv close volume) \<and> sorted (column 5 (compute_indicators df vw ew))) \<and>
         (sorted_wrt (>) close \<longrightarrow>
            sorted_wrt (\<ge>) (obv close volume) \<and>
            sorted_wrt (\<ge>) (column 5 (compute_indicators df vw ew)))"
proof -
  have len: "length volume = length close"
    using normalize_columns_length[OF wf cl] normalize_columns_length[OF wf vo] by simp
  have vol: "\<forall>v\<in>set volume. 0 \<le> v" using const nonneg by auto
  show ?thesis
  proof (intro conjI impI)
    assume up: "sorted_wrt (<) close"
    show r: "sorted (obv close volume)" using up len vol by (rule obv_rising)
    show "sorted (column 5 (compute_indicators df vw ew))"
      using wf cl vo r transform_mono by (rule obv_feature_sorted)
  next
    assume down: "sorted_wrt (>) close"
    show f: "sorted_wrt (\<ge>) (obv close volume)" using down len vol by (rule obv_falling)
    show "sorted_wrt (\<ge>) (column 5 (compute_indicators df vw ew))"
      using wf cl vo f transform_anti by (rule obv_feature_sorted)
  qed
qed

subsection \<open>The two example frames, evaluated\<close>

lemma lower_labels:
  "lower ''Close'' = ''close''" "lower ''High'' = ''high''"
  "lower ''Low'' = ''low''" "lower ''Volume'' = ''volume''"
  by code_simp+

lemma normalize_rising_frame:
  "normalize_columns rising_frame =
     [(''close'', [1, 2, 3, 4, 5, 6, 7, 8, 9, 10, 11, 12]), (''high'', [2, 3, 4, 5, 6, 7, 8, 9, 10, 11, 12, 13]), (''low'', [0, 1, 2, 3, 4, 5, 6, 7, 8, 9, 10, 11]), (''volume'', [1000, 1000, 1000, 1000, 1000, 1000, 1000, 1000, 1000, 1000, 1000, 1000])]"
  by (simp add: normalize_columns_def rising_frame_def lower_labels)

lemma normalize_falling_frame:
  "normalize_columns falling_frame =
     [(''close'', [12, 11, 10, 9, 8, 7, 6, 5, 4, 3, 2, 1]), (''high'', [13, 12, 11, 10, 9, 8, 7, 6, 5, 4, 3, 2]), (''low'', [11, 10, 9, 8, 7, 6, 5, 4, 3, 2, 1, 0]), (''volume'', [1000, 1000, 1000, 1000, 1000, 1000, 1000, 1000, 1000, 1000, 1000, 1000])]"
  by (simp add: normalize_columns_def falling_frame_def lower_labels)

lemma rsi_rising_12:
  "compute_rsi [Some 1, Some 2, Some 3, Some 4, Some 5, Some 6, Some 7, Some 8, Some 9, Some 10, Some 11, Some 12] 14 = Inr [Some 100, Some 100, Some 100, Some 100, Some 100, Some 100, Some 100, Some 100, Some 100, Some 100, Some 100, Some 100]"
  by (simp add: compute_rsi_def avg_gain_def avg_loss_def rsi_gain_def rsi_loss_def ewm_mean_def ewm_step_def ewm_out_def alpha_of_com_def diff_def shift_def series_sub_def series_div_def nan_lift2_def clip_lower_def clip_upper_def neg_def replace_zero_nan_def fillna_def)

lemma rsi_falling_12:
  "compute_rsi [Some 12, Some 11, Some 10, Some 9, Some 8, Some 7, Some 6, Some 5, Some 4, Some 3, Some 2, Some 1] 14 = Inr [Some 100, Some 100, Some 100, Some 100, Some 100, Some 100, Some 100, Some 100, Some 100, Some 100, Some 100, Some 100]"
  by (simp add: compute_rsi_def avg_gain_def avg_loss_def rsi_gain_def rsi_loss_def ewm_mean_def ewm_step_def ewm_out_def alpha_of_com_def diff_def shift_def series_sub_def series_div_def nan_lift2_def clip_lower_def clip_upper_def neg_def replace_zero_nan_def fillna_def)

lemma rsi_ma_12:
  "rolling 9 window_mean [Some 100, Some 100, Some 100, Some 100, Some 100, Some 100, Some 100, Some 100, Some 100, Some 100, Some 100, Some 100] = [None, None, None, None, None, None, None, None, Some 100, Some 100, Some 100, Some 100]"
  by (simp add: rolling_def window_mean_def mean_def upt_rec)

lemma std_rising_12:
  "rolling 2 window_std [Some 1, Some 2, Some 3, Some 4, Some 5, Some 6, Some 7, Some 8, Some 9, Some 10, Some 11, Some 12] = [None, Some (sqrt (1 / 2)), Some (sqrt (1 / 2)), Some (sqrt (1 / 2)), Some (sqrt (1 / 2)), Some (sqrt (1 / 2)), Some (sqrt (1 / 2)), Some (sqrt (1 / 2)), Some (sqrt (1 / 2)), Some (sqrt (1 / 2)), Some (sqrt (1 / 2)), Some (sqrt (1 / 2))]"
  by (simp add: rolling_def window_std_def mean_def upt_rec power2_eq_square)

lemma std_falling_12:
  "rolling 2 window_std [Some 12, Some 11, Some 10, Some 9, Some 8, Some 7, Some 6, Some 5, Some 4, Some 3, Some 2, Some 1] = [None, Some (sqrt (1 / 2)), Some (sqrt (1 / 2)), Some (sqrt (1 / 2)), Some (sqrt (1 / 2)), Some (sqrt (1 / 2)), Some (sqrt (1 / 2)), Some (sqrt (1 / 2)), Some (sqrt (1 / 2)), Some (sqrt (1 / 2)), Some (sqrt (1 / 2)), Some (sqrt (1 / 2))]"
  by (simp add: rolling_def window_std_def mean_def upt_rec power2_eq_square)

lemmas obv_scaled_defs =
  obv_scaled_def obv_def obv_next_def minmax_fit_transform_column_def defined_values_def
  fit_column_def transform_def handle_zeros_in_scale_def float_eps_def

lemma obv_scaled_rising_12:
  "obv_scaled [1, 2, 3, 4, 5, 6, 7, 8, 9, 10, 11, 12] [1000, 1000, 1000, 1000, 1000, 1000, 1000, 1000, 1000, 1000, 1000, 1000] = Inr [Some 0, Some (1 / 11), Some (2 / 11), Some (3 / 11), Some (4 / 11), Some (5 / 11), Some (6 / 11), Some (7 / 11), Some (8 / 11), Some (9 / 11), Some (10 / 11), Some 1]"
  by (simp add: obv_scaled_defs)

lemma obv_scaled_falling_12:
  "obv_scaled [12, 11, 10, 9, 8, 7, 6, 5, 4, 3, 2, 1] [1000, 1000, 1000, 1000, 1000, 1000, 1000, 1000, 1000, 1000, 1000, 1000] = Inr [Some 1, Some (10 / 11), Some (9 / 11), Some (8 / 11), Some (7 / 11), Some (6 / 11), Some (5 / 11), Some (4 / 11), Some (3 / 11), Some (2 / 11), Some (1 / 11), Some 0]"
  by (simp add: obv_scaled_defs)

lemmas feature_defs =
  ewm_mean_def ewm_step_def ewm_out_def alpha_of_span_def diff_def shift_def series_sub_def
  series_add_def series_div_def nan_lift2_def true_range_def bb_width_def row_max3_def
  cell_max_def series_abs_def scale_series_def replace_zero_nan_def dropna_def column_def

lemma obv_column_rising_frame:
  "column 5 (compute_indicators rising_frame 2 2) = [9 / 11, 10 / 11, 1]"
  unfolding compute_indicators_def normalize_rising_frame
  apply (simp add: empty_frame_def rising_frame_def required_cols_def feature_columns_def
           rsi_rising_12 obv_scaled_rising_12 rsi_ma_12 std_rising_12)
  apply (simp add: feature_defs)
  done

lemma obv_column_falling_frame:
  "column 5 (compute_indicators falling_frame 2 2) = [2 / 11, 1 / 11, 0]"
  unfolding compute_indicators_def normalize_falling_frame
  apply (simp add: empty_frame_def falling_frame_def required_cols_def feature_columns_def
           rsi_falling_12 obv_scaled_falling_12 rsi_ma_12 std_falling_12)
  apply (simp add: feature_defs)
  done

theorem obv_monotonic_witness:
  "wf_frame rising_frame \<and> wf_frame falling_frame \<and>
   map_of (normalize_columns rising_frame) ''close'' = Some [1, 2, 3, 4, 5, 6, 7, 8, 9, 10, 11, 12] \<and>
   map_of (normalize_columns falling_frame) ''close'' = Some [12, 11, 10, 9, 8, 7, 6, 5, 4, 3, 2, 1] \<and>
   map_of (normalize_columns rising_frame) ''volume'' = Some [1000, 1000, 1000, 1000, 1000, 1000, 1000, 1000, 1000, 1000, 1000, 1000] \<and>
   set [1000, 1000, 1000, 1000, 1000, 1000, 1000, 1000, 1000, 1000, 1000, 1000] = {1000 :: real} \<and>
   (0::real) \<le> 1000 \<and>
   sorted_wrt (<) [1, 2, 3, 4, 5, 6, 7, 8, 9, 10, 11, 12 :: real] \<and>
   sorted_wrt (>) [12, 11, 10, 9, 8, 7, 6, 5, 4, 3, 2, 1 :: real] \<and>
   sorted (obv [1, 2, 3, 4, 5, 6, 7, 8, 9, 10, 11, 12] [1000, 1000, 1000, 1000, 1000, 1000, 1000, 1000, 1000, 1000, 1000, 1000]) \<and>
   sorted (column 5 (compute_indicators rising_frame 2 2)) \<and>
   column 5 (compute_indicators rising_frame 2 2) = [9 / 11, 10 / 11, 1] \<and>
   sorted_wrt (\<ge>) (obv [12, 11, 10, 9, 8, 7, 6, 5, 4, 3, 2, 1] [1000, 1000, 1000, 1000, 1000, 1000, 1000, 1000, 1000, 1000, 1000, 1000]) \<and>
   sorted_wrt (\<ge>) (column 5 (compute_indicators falling_frame 2 2)) \<and>
   column 5 (compute_indicators falling_frame 2 2) = [2 / 11, 1 / 11, 0]"
proof -
  have wr: "wf_frame rising_frame" by (simp add: wf_frame_def rising_frame_def)
  have wf: "wf_frame falling_frame" by (simp add: wf_frame_def falling_frame_def)
  have cr: "map_of (normalize_columns rising_frame) ''close'' = Some [1, 2, 3, 4, 5, 6, 7, 8, 9, 10, 11, 12]"
    by (simp add: normalize_rising_frame)
  have vr: "map_of (normalize_columns rising_frame) ''volume'' = Some [1000, 1000, 1000, 1000, 1000, 1000, 1000, 1000, 1000, 1000, 1000, 1000]"
    by (simp add: normalize_rising_frame)
  have cf: "map_of (normalize_columns falling_frame) ''close'' = Some [12, 11, 10, 9, 8, 7, 6, 5, 4, 3, 2, 1]"
    by (simp add: normalize_falling_frame)
  have vf: "map_of (normalize_columns falling_frame) ''volume'' = Some [1000, 1000, 1000, 1000, 1000, 1000, 1000, 1000, 1000, 1000, 1000, 1000]"
    by (simp add: normalize_falling_frame)
  have k: "\<forall>v\<in>set [1000, 1000, 1000, 1000, 1000, 1000, 1000, 1000, 1000, 1000, 1000, 1000]. v = (1000::real)" by simp
  have n: "(0::real) \<le> 1000" by simp
  have up: "sorted_wrt (<) [1, 2, 3, 4, 5, 6, 7, 8, 9, 10, 11, 12 :: real]" by simp
  have down: "sorted_wrt (>) [12, 11, 10, 9, 8, 7, 6, 5, 4, 3, 2, 1 :: real]" by simp
  note r = obv_monotonic[OF wr cr vr k n, of 2 2]
  note f = obv_monotonic[OF wf cf vf k n, of 2 2]
  from r up have
    "sorted (obv [1, 2, 3, 4, 5, 6, 7, 8, 9, 10, 11, 12] [1000, 1000, 1000, 1000, 1000, 1000, 1000, 1000, 1000, 1000, 1000, 1000]) \<and> sorted (column 5 (compute_indicators rising_frame 2 2))"
    by blast
  moreover from f down have
    "sorted_wrt (\<ge>) (obv [12, 11, 10, 9, 8, 7, 6, 5, 4, 3, 2, 1] [1000, 1000, 1000, 1000, 1000, 1000, 1000, 1000, 1000, 1000, 1000, 1000]) \<and>
     sorted_wrt (\<ge>) (column 5 (compute_indicators falling_frame 2 2))"
    by blast
  ultimately show ?thesis
    using wr wf cr cf vr n up down obv_column_rising_frame obv_column_falling_frame by simp
qed

section \<open>The relative strength index\<close>

lemmas compute_rsi_defs =
  compute_rsi_def avg_gain_def avg_loss_def rsi_gain_def rsi_loss_def ewm_mean_def ewm_step_def
  ewm_out_def alpha_of_com_def diff_def shift_def series_sub_def series_div_def nan_lift2_def
  clip_lower_def clip_upper_def neg_def replace_zero_nan_def fillna_def

subsection \<open>What holds of compute_rsi on every series\<close>

text \<open>
  For every series and every period that pandas accepts, \<^verbatim>\<open>compute_rsi\<close> returns one
  value per row, each in \<open>[0, 100]\<close>; a row is \<open>100\<close> exactly when its smoothed average loss
  is \<open>0\<close> or when a smoothed average is still undefined there (the warm-up rows).
\<close>

lemma length_shift: "length (shift s) = length s"
  by (cases s) (simp_all add: shift_def)

lemma length_diff: "length (diff s) = length s"
  by (simp add: diff_def series_sub_def length_shift)

lemma length_ewm_run: "length (ewm_run alpha adjust minp st s) = length s"
  by (induction s arbitrary: st) simp_all

lemma length_avg_gain: "length (avg_gain s period) = length s"
  by (simp add: avg_gain_def ewm_mean_def length_ewm_run rsi_gain_def clip_lower_def length_diff)

lemma length_avg_loss: "length (avg_loss s period) = length s"
  by (simp add: avg_loss_def ewm_mean_def length_ewm_run rsi_loss_def clip_upper_def neg_def
        length_diff)

lemma rsi_gain_nonneg: "nonneg_cells (rsi_gain s)"
proof -
  have "0 \<le> x" if "Some x = map_option (max 0) c" for x :: real and c
    using that by (cases c) auto
  then show ?thesis by (auto simp: nonneg_cells_def rsi_gain_def clip_lower_def)
qed

lemma rsi_loss_nonneg: "nonneg_cells (rsi_loss s)"
proof -
  have "0 \<le> x" if "Some x = map_option uminus (map_option (min 0) c)" for x :: real and c
    using that by (cases c) auto
  then show ?thesis by (auto simp: nonneg_cells_def rsi_loss_def clip_upper_def neg_def)
qed

lemma ewm_step_inv:
  assumes "alpha \<le> 1" "ewm_inv st" "\<forall>x. cur = Some x \<longrightarrow> 0 \<le> x"
  shows "ewm_inv (ewm_step alpha True cur st)"
proof (cases "weighted st")
  case None
  with assms show ?thesis by (auto simp: ewm_inv_def ewm_step_def)
next
  case (Some w)
  with assms have w: "0 \<le> w" and ow: "0 \<le> old_wt st * (1 - alpha)"
    by (auto simp: ewm_inv_def)
  show ?thesis
  proof (cases cur)
    case None
    with Some w ow show ?thesis by (simp add: ewm_inv_def ewm_step_def Let_def)
  next
    case (Some c)
    with assms(3) have c: "0 \<le> c" by simp
    have "0 \<le> old_wt st * (1 - alpha) * w + c" "0 \<le> old_wt st * (1 - alpha) + 1"
      using w ow c by (simp_all add: add_nonneg_nonneg mult_nonneg_nonneg)
    then have "0 \<le> (old_wt st * (1 - alpha) * w + c) / (old_wt st * (1 - alpha) + 1)"
      by (rule divide_nonneg_nonneg)
    with \<open>weighted st = Some w\<close> Some ow show ?thesis
      by (simp add: ewm_inv_def ewm_step_def Let_def)
  qed
qed

lemma ewm_run_nonneg:
  assumes "alpha \<le> 1" "ewm_inv st" "nonneg_cells s"
  shows "nonneg_cells (ewm_run alpha True minp st s)"
  using assms(2,3)
proof (induction s arbitrary: st)
  case Nil
  then show ?case by (simp add: nonneg_cells_def)
next
  case (Cons cur rest)
  have cur: "\<forall>x. cur = Some x \<longrightarrow> 0 \<le> x" and rest: "nonneg_cells rest"
    using Cons.prems(2) by (auto simp: nonneg_cells_def)
  have inv: "ewm_inv (ewm_step alpha True cur st)"
    using assms(1) Cons.prems(1) cur by (rule ewm_step_inv)
  have "\<forall>x. ewm_out minp (ewm_step alpha True cur st) = Some x \<longrightarrow> 0 \<le> x"
    using inv by (auto simp: ewm_out_def ewm_inv_def split: if_splits)
  with Cons.IH[OF inv rest] show ?case by (auto simp: nonneg_cells_def)
qed

lemma alpha_of_com_le_1: "0 < period \<Longrightarrow> alpha_of_com (real period - 1) \<le> 1"
  by (simp add: alpha_of_com_def)

lemma ewm_mean_nonneg:
  assumes "alpha \<le> 1" "nonneg_cells s"
  shows "nonneg_cells (ewm_mean alpha True minp s)"
  unfolding ewm_mean_def
  by (rule ewm_run_nonneg[OF assms(1) _ assms(2)]) (simp add: ewm_inv_def)

lemma avg_gain_nonneg: "0 < period \<Longrightarrow> nonneg_cells (avg_gain s period)"
  unfolding avg_gain_def by (intro ewm_mean_nonneg alpha_of_com_le_1 rsi_gain_nonneg)

lemma avg_loss_nonneg: "0 < period \<Longrightarrow> nonneg_cells (avg_loss s period)"
  unfolding avg_loss_def by (intro ewm_mean_nonneg alpha_of_com_le_1 rsi_loss_nonneg)

lemma bfill_defined: "None \<notin> set s \<Longrightarrow> bfill s = s"
  by (induction s) (auto simp: Let_def split: option.splits)

lemma compute_rsi_rows:
  assumes "0 < period"
  shows "compute_rsi s period = Inr (map2 rsi_cell (avg_gain s period) (avg_loss s period))"
proof -
  let ?g = "avg_gain s period" and ?l = "avg_loss s period"
  have "fillna 100 (map (map_option (\<lambda>r. 100 - 100 / (1 + r)))
          (series_div ?g (replace_zero_nan ?l))) = map2 rsi_cell ?g ?l"
    by (auto simp: fillna_def series_div_def replace_zero_nan_def rsi_cell_def zip_map2
          split: option.splits intro!: nth_equalityI)
  moreover have "None \<notin> set (map2 rsi_cell ?g ?l)"
    by (auto simp: rsi_cell_def split: option.splits)
  ultimately show ?thesis using assms by (simp add: compute_rsi_def bfill_defined)
qed

lemma rsi_cell_range:
  assumes "\<forall>x. g = Some x \<longrightarrow> 0 \<le> x" "\<forall>x. l = Some x \<longrightarrow> 0 \<le> x"
  shows "\<exists>v. rsi_cell g l = Some v \<and> 0 \<le> v \<and> v \<le> 100 \<and>
           (v = 100 \<longleftrightarrow> g = None \<or> l = None \<or> l = Some 0)"
proof (cases "g = None \<or> l = None \<or> l = Some 0")
  case True
  then show ?thesis by (auto simp: rsi_cell_def nan_lift2_def split: option.splits)
next
  case False
  then obtain a b where ab: "g = Some a" "l = Some b" "b \<noteq> 0" by auto
  with assms have a: "0 \<le> a" and b: "0 < b" by auto
  then have r: "0 \<le> a / b" by simp
  have v: "rsi_cell g l = Some (100 - 100 / (1 + a / b))"
    using ab by (simp add: rsi_cell_def nan_lift2_def)
  have pos: "0 < 100 / (1 + a / b)" using r by simp
  have le: "100 / (1 + a / b) \<le> 100" using r by (simp add: divide_le_eq)
  show ?thesis using v pos le False by auto
qed

lemma compute_rsi_range:
  assumes "compute_rsi s period = Inr rsi"
  shows "length rsi = length s \<and> (\<forall>c\<in>set rsi. \<exists>v. c = Some v \<and> 0 \<le> v \<and> v \<le> 100)"
proof -
  from assms have p: "0 < period" by (auto simp: compute_rsi_def split: if_splits)
  from assms compute_rsi_rows[OF p, of s]
  have rsi: "rsi = map2 rsi_cell (avg_gain s period) (avg_loss s period)" by simp
  have "\<exists>v. rsi_cell g l = Some v \<and> 0 \<le> v \<and> v \<le> 100"
    if "(g, l) \<in> set (zip (avg_gain s period) (avg_loss s period))" for g l
  proof -
    from that have "g \<in> set (avg_gain s period)" "l \<in> set (avg_loss s period)"
      by (auto dest: set_zip_leftD set_zip_rightD)
    with avg_gain_nonneg[OF p, of s] avg_loss_nonneg[OF p, of s]
    have "\<forall>x. g = Some x \<longrightarrow> 0 \<le> x" "\<forall>x. l = Some x \<longrightarrow> 0 \<le> x"
      by (auto simp: nonneg_cells_def)
    from rsi_cell_range[OF this] show ?thesis by blast
  qed
  then show ?thesis unfolding rsi by (auto simp: length_avg_gain length_avg_loss)
qed

lemma compute_rsi_100_iff:
  assumes "compute_rsi s period = Inr rsi" "i < length s"
  shows "rsi ! i = Some 100 \<longleftrightarrow>
           avg_gain s period ! i = None \<or> avg_loss s period ! i = None \<or>
           avg_loss s period ! i = Some 0"
proof -
  from assms have p: "0 < period" by (auto simp: compute_rsi_def split: if_splits)
  from assms compute_rsi_rows[OF p, of s]
  have rsi: "rsi = map2 rsi_cell (avg_gain s period) (avg_loss s period)" by simp
  let ?g = "avg_gain s period ! i" and ?l = "avg_loss s period ! i"
  have i: "i < length (avg_gain s period)" "i < length (avg_loss s period)"
    using assms(2) by (simp_all add: length_avg_gain length_avg_loss)
  then have cell: "rsi ! i = rsi_cell ?g ?l" unfolding rsi by simp
  from i have "?g \<in> set (avg_gain s period)" "?l \<in> set (avg_loss s period)" by simp_all
  with avg_gain_nonneg[OF p, of s] avg_loss_nonneg[OF p, of s]
  have "\<forall>x. ?g = Some x \<longrightarrow> 0 \<le> x" "\<forall>x. ?l = Some x \<longrightarrow> 0 \<le> x"
    by (auto simp: nonneg_cells_def)
  from rsi_cell_range[OF this] cell show ?thesis by auto
qed

subsection \<open>The warm-up rows\<close>

text \<open>
  C4. Sixteen closes falling by one a day: every day after the first has a loss of \<open>1\<close> and
  no gain. The smoothed average loss is undefined on the fourteen warm-up rows and \<open>1\<close>
  afterwards, never \<open>0\<close>; \<^verbatim>\<open>compute_rsi\<close> returns \<open>100\<close> on the warm-up rows and \<open>0\<close>
  afterwards. \<^verbatim>\<open>fillna(100)\<close> has filled the warm-up rows before \<^verbatim>\<open>bfill()\<close> could.
\<close>

theorem compute_rsi_warm_up_rows:
  "compute_rsi (map Some [16, 15, 14, 13, 12, 11, 10, 9, 8, 7, 6, 5, 4, 3, 2, 1]) 14 =
     Inr [Some 100, Some 100, Some 100, Some 100, Some 100, Some 100, Some 100, Some 100, Some 100, Some 100, Some 100, Some 100, Some 100, Some 100, Some 0, Some 0] \<and>
   avg_loss (map Some [16, 15, 14, 13, 12, 11, 10, 9, 8, 7, 6, 5, 4, 3, 2, 1]) 14 =
     [None, None, None, None, None, None, None, None, None, None, None, None, None, None, Some 1, Some 1]"
  by (simp add: compute_rsi_defs)

section \<open>A complete run of predict_future\<close>

lemma normalize_linear_frame:
  "normalize_columns linear_frame = columns linear_frame"
  unfolding normalize_columns_def linear_frame_def
  by (simp add: lower_def) code_simp

lemma rsi_linear_22:
  "compute_rsi [Some 101, Some 102, Some 103, Some 104, Some 105, Some 106, Some 107, Some 108, Some 109, Some 110, Some 111, Some 112, Some 113, Some 114, Some 115, Some 116, Some 117, Some 118, Some 119, Some 120, Some 121, Some 122] 14 = Inr [Some 100, Some 100, Some 100, Some 100, Some 100, Some 100, Some 100, Some 100, Some 100, Some 100, Some 100, Some 100, Some 100, Some 100, Some 100, Some 100, Some 100, Some 100, Some 100, Some 100, Some 100, Some 100]"
  by (simp add: compute_rsi_defs)

lemma rsi_ma_22:
  "rolling 9 window_mean [Some 100, Some 100, Some 100, Some 100, Some 100, Some 100, Some 100, Some 100, Some 100, Some 100, Some 100, Some 100, Some 100, Some 100, Some 100, Some 100, Some 100, Some 100, Some 100, Some 100, Some 100, Some 100] = [None, None, None, None, None, None, None, None, Some 100, Some 100, Some 100, Some 100, Some 100, Some 100, Some 100, Some 100, Some 100, Some 100, Some 100, Some 100, Some 100, Some 100]"
  by (simp add: rolling_def window_mean_def mean_def upt_rec)

lemma std_linear_22:
  "rolling 20 window_std [Some 101, Some 102, Some 103, Some 104, Some 105, Some 106, Some 107, Some 108, Some 109, Some 110, Some 111, Some 112, Some 113, Some 114, Some 115, Some 116, Some 117, Some 118, Some 119, Some 120, Some 121, Some 122] = [None, None, None, None, None, None, None, None, None, None, None, None, None, None, None, None, None, None, None, Some (sqrt 35), Some (sqrt 35), Some (sqrt 35)]"
  by (simp add: rolling_def window_std_def mean_def upt_rec power2_eq_square)

lemma obv_scaled_linear_22:
  "obv_scaled [101, 102, 103, 104, 105, 106, 107, 108, 109, 110, 111, 112, 113, 114, 115, 116, 117, 118, 119, 120, 121, 122] [1000, 1000, 1000, 1000, 1000, 1000, 1000, 1000, 1000, 1000, 1000, 1000, 1000, 1000, 1000, 1000, 1000, 1000, 1000, 1000, 1000, 1000] = Inr [Some 0, Some (1 / 21), Some (2 / 21), Some (3 / 21), Some (4 / 21), Some (5 / 21), Some (6 / 21), Some (7 / 21), Some (8 / 21), Some (9 / 21), Some (10 / 21), Some (11 / 21), Some (12 / 21), Some (13 / 21), Some (14 / 21), Some (15 / 21), Some (16 / 21), Some (17 / 21), Some (18 / 21), Some (19 / 21), Some (20 / 21), Some 1]"
  by (simp add: obv_scaled_defs)

lemma features_linear_frame:
  "\<exists>f0 f1 f2. compute_indicators linear_frame 20 20 = [120 # f0, 121 # f1, 122 # f2]"
  unfolding compute_indicators_def normalize_linear_frame
  apply (simp add: empty_frame_def linear_frame_def required_cols_def feature_columns_def
           rsi_linear_22 obv_scaled_linear_22 rsi_ma_22 std_linear_22)
  apply (simp add: feature_defs)
  done


lemma fit_Cons:
  "fit ((x # r) # rs) =
     Inr (fit_column x (column 0 rs)
          # map (\<lambda>j. fit_column ((x # r) ! j) (column j rs)) [1..<Suc (length r)])"
proof -
  have "[0..<length (x # r)] = 0 # [1..<Suc (length r)]"
    by (simp add: upt_conv_Cons del: upt_Suc)
  then show ?thesis unfolding fit_def by (simp del: upt_Suc)
qed

lemma transform_rows_Cons:
  "transform_rows (sc # scs) X = map (\<lambda>r. case r of [] \<Rightarrow> [] | x # xs \<Rightarrow> transform sc x # map2 transform scs xs) X"
  by (auto simp: transform_rows_def split: list.splits)

lemma dates_linear_frame:
  "bdate_range 738041 prediction_days =
     [738041, 738042, 738043, 738046, 738047, 738048, 738049, 738050, 738053, 738054]"
  by (simp add: prediction_days_def eval_nat_numeral roll_forward_def weekday_def)

lemma sentiment_example:
  "forecast_future_sentiment regression 738040 [(738035, 1 / 2)]
     [738041, 738042, 738043, 738046, 738047, 738048, 738049, 738050, 738053, 738054] =
   map (\<lambda>d. (d, 1 / 2))
     [738041, 738042, 738043, 738046, 738047, 738048, 738049, 738050, 738053, 738054]"
  by (simp add: forecast_future_sentiment_def recent_def fallback_sentiment_def mean_def dict_of_def)

lemma adjust_forecast_example:
  "adjust_forecast \<lparr>min_attr = - 60, scale_attr = 1 / 2\<rparr> 122
     [9 / 8, 5 / 4, 11 / 8, 3 / 2, 13 / 8, 7 / 4, 15 / 8, 2, 17 / 8, 9 / 4] =
   Inr [122, 489 / 4, 245 / 2, 491 / 4, 123, 493 / 4, 247 / 2, 495 / 4, 124, 497 / 4]"
proof -
  note f = fl_quarters[of "- 1", simplified] fl_quarters[of 488, simplified]
    fl_quarters[of 489, simplified] fl_quarters[of 490, simplified]
    fl_quarters[of 491, simplified] fl_quarters[of 492, simplified]
    fl_quarters[of 493, simplified] fl_quarters[of 494, simplified]
    fl_quarters[of 495, simplified] fl_quarters[of 496, simplified]
    fl_quarters[of 497, simplified]
  show ?thesis
    by (simp add: adjust_forecast_def shift_prices_def inverse_transform_def f)
qed

text \<open>
  With one row per window the frame gives two windows, so the training has a training
  and a validation window. With the predictor of the example the run reaches the noise
  step with the adjusted path that starts at the last close, \<open>122\<close>.
\<close>

lemma predict_future_linear_frame_path:
  assumes "\<And>X y. model_fit e X y = Inr (\<lambda>batch. hd (last batch) + 1 / 8)"
  shows "predict_future e linear_frame 1 =
     (case add_noise e
             (incorporate_sentiment e
                [738041, 738042, 738043, 738046, 738047, 738048, 738049, 738050, 738053, 738054]
                [122, 489 / 4, 245 / 2, 491 / 4, 123, 493 / 4, 247 / 2, 495 / 4, 124, 497 / 4]) of
        Inl err \<Rightarrow> Inl err
      | Inr noisy_final_prices \<Rightarrow>
          Inr ([738041, 738042, 738043, 738046, 738047, 738048, 738049, 738050, 738053, 738054],
               noisy_final_prices))"
proof -
  from features_linear_frame obtain f0 f1 f2 where
    F: "compute_indicators linear_frame 20 20 = [120 # f0, 121 # f1, 122 # f2]" by blast
  have roll: "roll_loop (\<lambda>batch. hd (last batch) + 1 / 8) prediction_days ([], [1 # g2]) =
     Inr ([9 / 8, 5 / 4, 11 / 8, 3 / 2, 13 / 8, 7 / 4, 15 / 8, 2, 17 / 8, 9 / 4],
          [(9 / 4) # g2])" for g2 :: "real list"
    by (simp add: prediction_days_def eval_nat_numeral roll_step_def)
  have lp: "last_actual_price linear_frame = Inr 122"
    by (simp add: last_actual_price_def linear_frame_def)
  have sc: "fit_column 120 [121, 122] = \<lparr>min_attr = - 60, scale_attr = 1 / 2\<rparr>"
    by (simp add: fit_column_def handle_zeros_in_scale_def float_eps_def)
  have v: "validation_split_ok (Suc (Suc 0))" by (simp add: validation_split_ok_def)
  show ?thesis
    unfolding predict_future_def F fit_Cons
    apply (simp add: transform_rows_Cons column_def sc make_windows_def upt_rec[of 1] transform_def)
    apply (simp add: forecast_def assms roll lp adjust_forecast_example v)
    apply (simp add: linear_frame_def dates_linear_frame cong: sum.case_cong)
    done
qed

lemma predict_future_linear_frame:
  "predict_future example_env linear_frame 1 =
     Inr ([738041, 738042, 738043, 738046, 738047, 738048, 738049, 738050, 738053, 738054],
          [15734037 / 128000, 15608123 / 128000, 15798197 / 128000, 15672283 / 128000,
           15862357 / 128000, 15736443 / 128000, 15926517 / 128000, 15800603 / 128000,
           15990677 / 128000, 15864763 / 128000])"
proof -
  have sent: "incorporate_sentiment example_env
                [738041, 738042, 738043, 738046, 738047, 738048, 738049, 738050, 738053, 738054]
                [122, 489 / 4, 245 / 2, 491 / 4, 123, 493 / 4, 247 / 2, 495 / 4, 124, 497 / 4] =
              [24461 / 200, 196089 / 1600, 19649 / 160, 196891 / 1600, 49323 / 400,
               197693 / 1600, 99047 / 800, 39699 / 320, 12431 / 100, 199297 / 1600]"
    by (simp add: incorporate_sentiment_def example_env_def sentiment_example dict_get_def
          sentiment_weight_def)
  have noise: "add_noise example_env
              [24461 / 200, 196089 / 1600, 19649 / 160, 196891 / 1600, 49323 / 400,
               197693 / 1600, 99047 / 800, 39699 / 320, 12431 / 100, 199297 / 1600] =
          Inr [15734037 / 128000, 15608123 / 128000, 15798197 / 128000, 15672283 / 128000,
           15862357 / 128000, 15736443 / 128000, 15926517 / 128000, 15800603 / 128000,
           15990677 / 128000, 15864763 / 128000]"
    by (simp add: add_noise_def example_env_def mean_def enumerate_eq_zip upt_rec)
  have mf: "model_fit example_env X y = Inr (\<lambda>batch. hd (last batch) + 1 / 8)" for X y
    by (simp add: example_env_def)
  show ?thesis
    unfolding predict_future_linear_frame_path[of example_env, OF mf] by (simp add: sent noise)
qed

lemma predict_future_linear_frame_quiet:
  "predict_future quiet_env linear_frame 1 =
     Inr ([738041, 738042, 738043, 738046, 738047, 738048, 738049, 738050, 738053, 738054],
          [122, 489 / 4, 245 / 2, 491 / 4, 123, 493 / 4, 247 / 2, 495 / 4, 124, 497 / 4])"
proof -
  have sent: "incorporate_sentiment quiet_env dates prices = prices" for dates prices
    by (simp add: incorporate_sentiment_def quiet_env_def)
  have noise: "add_noise quiet_env
              [122, 489 / 4, 245 / 2, 491 / 4, 123, 493 / 4, 247 / 2, 495 / 4, 124, 497 / 4] =
          Inr [122, 489 / 4, 245 / 2, 491 / 4, 123, 493 / 4, 247 / 2, 495 / 4, 124, 497 / 4]"
    by (simp add: add_noise_def quiet_env_def mean_def enumerate_eq_zip upt_rec)
  have mf: "model_fit quiet_env X y = Inr (\<lambda>batch. hd (last batch) + 1 / 8)" for X y
    by (simp add: quiet_env_def example_env_def)
  show ?thesis
    unfolding predict_future_linear_frame_path[of quiet_env, OF mf] by (simp add: sent noise)
qed

section \<open>The rollout loop\<close>

lemma roll_step_ok:
  assumes "batch \<noteq> []" "\<forall>r\<in>set batch. r \<noteq> []"
  shows "roll_step batch p = Inr (tl batch @ [(last batch)[0 := p]])"
  using assms by (simp add: roll_step_def)

lemma roll_step_keeps:
  assumes "batch \<noteq> []" "\<forall>r\<in>set batch. r \<noteq> []"
  shows "tl batch @ [(last batch)[0 := p]] \<noteq> []"
    and "\<forall>r\<in>set (tl batch @ [(last batch)[0 := p]]). r \<noteq> []"
    and "length (tl batch @ [(last batch)[0 := p]]) = length batch"
    and "tl (last (tl batch @ [(last batch)[0 := p]])) = tl (last batch)"
proof -
  show "tl batch @ [(last batch)[0 := p]] \<noteq> []" by simp
  have "last batch \<noteq> []" using assms by simp
  then show "\<forall>r\<in>set (tl batch @ [(last batch)[0 := p]]). r \<noteq> []"
    using assms by (auto dest: list.set_sel(2))
  show "length (tl batch @ [(last batch)[0 := p]]) = length batch"
    using assms(1) by (cases batch) auto
  show "tl (last (tl batch @ [(last batch)[0 := p]])) = tl (last batch)"
    by (cases "last batch") auto
qed

text \<open>Running \<open>n + m\<close> passes is running \<open>n\<close> passes and then \<open>m\<close> more.\<close>

lemma roll_loop_add:
  "roll_loop predict (n + m) st =
     (case roll_loop predict n st of
        Inl e \<Rightarrow> Inl e
      | Inr st' \<Rightarrow> roll_loop predict m st')"
proof (induction n arbitrary: st)
  case 0
  then show ?case by simp
next
  case (Suc n)
  obtain ps b where st: "st = (ps, b)" by (cases st)
  show ?case
  proof (cases "roll_step b (predict b)")
    case (Inl e)
    then show ?thesis by (simp add: st)
  next
    case (Inr b')
    then show ?thesis using Suc.IH[of "(ps @ [predict b], b')"] by (simp add: st)
  qed
qed

lemma roll_loop_one:
  assumes "batch \<noteq> []" "\<forall>r\<in>set batch. r \<noteq> []"
  shows "roll_loop predict (Suc 0) (ps, batch) =
           Inr (ps @ [predict batch], tl batch @ [(last batch)[0 := predict batch]])"
  using roll_step_ok[OF assms] by simp

lemma roll_loop_Suc_end:
  assumes "roll_loop predict n st = Inr (ps, b)" "b \<noteq> []" "\<forall>r\<in>set b. r \<noteq> []"
  shows "roll_loop predict (Suc n) st =
           Inr (ps @ [predict b], tl b @ [(last b)[0 := predict b]])"
proof -
  have "roll_loop predict (n + Suc 0) st = roll_loop predict (Suc 0) (ps, b)"
    by (simp only: roll_loop_add assms(1) sum.case)
  then show ?thesis using roll_loop_one[OF assms(2,3)] by simp
qed

lemma roll_loop_invariant:
  assumes "batch \<noteq> []" "\<forall>r\<in>set batch. r \<noteq> []"
  shows "\<exists>ps b. roll_loop predict n (ps0, batch) = Inr (ps0 @ ps, b) \<and>
           length ps = n \<and> length b = length batch \<and> b \<noteq> [] \<and> (\<forall>r\<in>set b. r \<noteq> []) \<and>
           tl (last b) = tl (last batch)"
proof (induction n)
  case 0
  then show ?case using assms by simp
next
  case (Suc n)
  then obtain ps b where ih: "roll_loop predict n (ps0, batch) = Inr (ps0 @ ps, b)"
    "length ps = n" "length b = length batch" "b \<noteq> []" "\<forall>r\<in>set b. r \<noteq> []"
    "tl (last b) = tl (last batch)" by blast
  let ?b = "tl b @ [(last b)[0 := predict b]]"
  have "roll_loop predict (Suc n) (ps0, batch) = Inr (ps0 @ (ps @ [predict b]), ?b)"
    using roll_loop_Suc_end[OF ih(1,4,5)] by simp
  moreover have "length (ps @ [predict b]) = Suc n" using ih(2) by simp
  moreover have "length ?b = length batch" "?b \<noteq> []" "\<forall>r\<in>set ?b. r \<noteq> []"
    "tl (last ?b) = tl (last batch)"
    using roll_step_keeps[OF ih(4,5), of "predict b"] ih(3,6) by simp_all
  ultimately show ?case by blast
qed

text \<open>
  C3. From any batch with at least one row and no empty row, and for any one-step
  predictor and horizon \<open>h\<close>, the loop does not raise and returns \<open>h\<close> predictions. Pass
  \<open>k\<close> (\<open>k < h\<close>) starts from the state after \<open>k\<close> passes, emits the prediction for its
  batch as entry \<open>k\<close>, and leaves the batch without its oldest row and with one new last
  row: the previous last row with entry \<open>0\<close> replaced by that prediction. The batch
  keeps its length, and the entries after the first of its last row stay those of the
  last row of the initial batch.
\<close>

theorem roll_loop_rollout:
  assumes "batch \<noteq> []" "[] \<notin> set batch"
  shows "\<exists>preds b. roll_loop predict h ([], batch) = Inr (preds, b) \<and>
           length preds = h \<and> length b = length batch \<and> tl (last b) = tl (last batch) \<and>
           (\<forall>k<h. \<exists>pk bk.
              roll_loop predict k ([], batch) = Inr (pk, bk) \<and>
              length bk = length batch \<and> tl (last bk) = tl (last batch) \<and>
              preds ! k = predict bk \<and>
              roll_loop predict (Suc k) ([], batch) =
                Inr (pk @ [predict bk], tl bk @ [(last bk)[0 := predict bk]]))"
proof -
  have rows: "\<forall>r\<in>set batch. r \<noteq> []" using assms(2) by auto
  note wf = assms(1) rows
  from roll_loop_invariant[OF wf, where predict = predict and n = h and ?ps0.0 = "[]"] obtain preds b where
    fin: "roll_loop predict h ([], batch) = Inr (preds, b)" "length preds = h"
      "length b = length batch" "tl (last b) = tl (last batch)" by auto
  have step: "\<exists>pk bk.
      roll_loop predict k ([], batch) = Inr (pk, bk) \<and>
      length bk = length batch \<and> tl (last bk) = tl (last batch) \<and>
      preds ! k = predict bk \<and>
      roll_loop predict (Suc k) ([], batch) =
        Inr (pk @ [predict bk], tl bk @ [(last bk)[0 := predict bk]])" if k: "k < h" for k
  proof -
    from roll_loop_invariant[OF wf, where predict = predict and n = k and ?ps0.0 = "[]"] obtain pk bk where
      kk: "roll_loop predict k ([], batch) = Inr (pk, bk)" "length pk = k"
        "length bk = length batch" "bk \<noteq> []" "\<forall>r\<in>set bk. r \<noteq> []"
        "tl (last bk) = tl (last batch)" by auto
    have sk: "roll_loop predict (Suc k) ([], batch) =
                Inr (pk @ [predict bk], tl bk @ [(last bk)[0 := predict bk]])"
      using roll_loop_Suc_end[OF kk(1,4,5)] .
    have rest: "\<exists>ps b'. roll_loop predict m (pk @ [predict bk], tl bk @ [(last bk)[0 := predict bk]])
                  = Inr ((pk @ [predict bk]) @ ps, b')" for m
      using roll_loop_invariant[OF roll_step_keeps(1,2)[OF kk(4,5), of "predict bk"],
              where predict = predict and n = m and ?ps0.0 = "pk @ [predict bk]"] by blast
    obtain m where m: "h = Suc k + m" using k by (metis less_iff_Suc_add add_Suc)
    from rest[of m] obtain ps b' where
      "roll_loop predict m (pk @ [predict bk], tl bk @ [(last bk)[0 := predict bk]])
         = Inr ((pk @ [predict bk]) @ ps, b')" by blast
    with roll_loop_add[of predict "Suc k" m "([], batch)"] sk m fin(1)
    have "preds = (pk @ [predict bk]) @ ps" by simp
    then have "preds ! k = predict bk" using kk(2) by (simp add: nth_append)
    with kk sk show ?thesis by blast
  qed
  show ?thesis using fin step by blast
qed


theorem roll_loop_rollout_witness:
  "[[1, 10], [2, 20 :: real]] \<noteq> [] \<and> [] \<notin> set [[1, 10], [2, 20 :: real]] \<and>
   roll_loop (\<lambda>b. hd (last b) + 1) 3 ([], [[1, 10], [2, 20]]) =
     Inr ([3, 4, 5], [[4, 20], [5, 20]]) \<and>
   roll_loop (\<lambda>b. hd (last b) + 1) 2 ([], [[1, 10], [2, 20]]) =
     Inr ([3, 4], [[3, 20], [4, 20]]) \<and>
   (\<exists>preds b. roll_loop (\<lambda>b. hd (last b) + 1) 3 ([], [[1, 10], [2, 20]]) = Inr (preds, b) \<and>
      length preds = 3 \<and> length b = 2 \<and> tl (last b) = [20] \<and> preds ! 2 = 5)"
proof -
  have a: "[[1, 10], [2, 20 :: real]] \<noteq> []" by simp
  have b: "[] \<notin> set [[1, 10], [2, 20 :: real]]" by simp
  have e3: "roll_loop (\<lambda>b. hd (last b) + 1) 3 ([], [[1, 10], [2, 20]]) =
              Inr ([3, 4, 5], [[4, 20], [5, 20]])"
    by (simp add: roll_step_def eval_nat_numeral)
  have e2: "roll_loop (\<lambda>b. hd (last b) + 1) 2 ([], [[1, 10], [2, 20]]) =
              Inr ([3, 4], [[3, 20], [4, 20]])"
    by (simp add: roll_step_def eval_nat_numeral)
  from roll_loop_rollout[OF a b, of "\<lambda>b. hd (last b) + 1" 3] e3
  have "\<exists>preds b. roll_loop (\<lambda>b. hd (last b) + 1) 3 ([], [[1, 10], [2, 20]]) = Inr (preds, b) \<and>
      length preds = 3 \<and> length b = 2 \<and> tl (last b) = [20] \<and> preds ! 2 = 5"
    by (auto simp: eval_nat_numeral)
  with a b e3 e2 show ?thesis by blast
qed

section \<open>The sentiment trend forecast, verified\<close>

lemma map_of_dict_of_aux:
  "map_of (fold (\<lambda>(k, v) d. AList.update k v d) kvs d0) =
     fold (\<lambda>(k, v) m. m(k \<mapsto> v)) kvs (map_of d0)"
  by (induction kvs arbitrary: d0) (auto simp: update_conv')

lemma fold_upd_const:
  "fold (\<lambda>(k, v) m. m(k \<mapsto> v)) (map (\<lambda>d. (d, c)) ds) m0 =
     (\<lambda>k. if k \<in> set ds then Some c else m0 k)"
  by (induction ds arbitrary: m0) (auto simp: fun_eq_iff)

lemma map_of_dict_of_const:
  "map_of (dict_of (map (\<lambda>d. (d, c)) ds)) = (\<lambda>k. if k \<in> set ds then Some c else None)"
  by (simp add: dict_of_def map_of_dict_of_aux fold_upd_const)

lemma keys_dict_of_aux:
  "fst ` set (fold (\<lambda>(k, v) d. AList.update k v d) kvs d0) = fst ` set kvs \<union> fst ` set d0"
proof (induction kvs arbitrary: d0)
  case Nil
  then show ?case by simp
next
  case (Cons kv kvs)
  obtain k v where kv: "kv = (k, v)" by (cases kv)
  have "fst ` set (fold (\<lambda>(k, v) d. AList.update k v d) (kv # kvs) d0) =
          fst ` set kvs \<union> fst ` set (AList.update k v d0)"
    using Cons.IH[of "AList.update k v d0"] by (simp add: kv)
  also have "\<dots> = fst ` set (kv # kvs) \<union> fst ` set d0"
    by (simp add: dom_update kv Un_commute insert_commute Un_left_commute)
  finally show ?case .
qed

lemma keys_dict_of: "fst ` set (dict_of kvs) = fst ` set kvs"
  by (simp add: dict_of_def keys_dict_of_aux)

lemma dict_of_empty_iff: "dict_of kvs = [] \<longleftrightarrow> kvs = []"
  using keys_dict_of[of kvs] by (metis image_is_empty set_empty)










text \<open>
  C6. With fewer than five observations in the last 30 days the forecast is flat: it is
  the dictionary that gives every forecast date, and no other date, one value, namely
  the mean of the recent scores when there are any, else the mean of all the scores, and
  \<open>0\<close> for the empty map, whatever the regression would do. No statement on this path
  can raise on a map from dates to numbers, so the result is a plain dictionary.
\<close>

theorem sentiment_fallback_flat:
  assumes "length (recent now sd) < 5"
  shows "forecast_future_sentiment regression now sd future_dates =
           dict_of (map (\<lambda>d. (d,
              if sd = [] then 0
              else if recent now sd \<noteq> [] then mean (map snd (recent now sd))
              else mean (map snd sd))) future_dates) \<and>
         fst ` set (forecast_future_sentiment regression now sd future_dates) = set future_dates \<and>
         (\<forall>d\<in>set future_dates.
            map_of (forecast_future_sentiment regression now sd future_dates) d =
              Some (if sd = [] then 0
                    else if recent now sd \<noteq> [] then mean (map snd (recent now sd))
                    else mean (map snd sd)))"
proof -
  let ?c = "if sd = [] then 0
            else if recent now sd \<noteq> [] then mean (map snd (recent now sd))
            else mean (map snd sd)"
  have eq: "forecast_future_sentiment regression now sd future_dates =
              dict_of (map (\<lambda>d. (d, ?c)) future_dates)"
    using assms by (simp add: forecast_future_sentiment_def fallback_sentiment_def)
  have keys: "fst ` set (dict_of (map (\<lambda>d. (d, ?c)) future_dates)) = set future_dates"
    by (simp add: keys_dict_of image_image)
  have vals: "\<forall>d\<in>set future_dates.
                map_of (dict_of (map (\<lambda>d. (d, ?c)) future_dates)) d = Some ?c"
    by (simp add: map_of_dict_of_const)
  show ?thesis unfolding eq using keys vals by blast
qed

theorem sentiment_fallback_flat_witness:
  "length (recent 738010 [(738000, 1 / 2), (737000, - (1 / 5))]) < 5 \<and>
   length (recent 738010 []) < 5 \<and>
   recent 738010 [(738000, 1 / 2), (737000, - (1 / 5))] = [(738000, 1 / 2)] \<and>
   forecast_future_sentiment (\<lambda>xs ys. Inr (linear_fit xs ys)) 738010 [(738000, 1 / 2), (737000, - (1 / 5))] [738011, 738012] =
     [(738011, 1 / 2), (738012, 1 / 2)] \<and>
   forecast_future_sentiment (\<lambda>xs ys. Inr (linear_fit xs ys)) 738010 [(737000, - (1 / 5)), (736000, - (3 / 5))] [738011, 738012] =
     [(738011, - (2 / 5)), (738012, - (2 / 5))] \<and>
   forecast_future_sentiment (\<lambda>xs ys. Inr (linear_fit xs ys)) 738010 [] (bdate_range 738011 prediction_days) =
     map (\<lambda>d. (d, 0)) [738011, 738012, 738013, 738014, 738015, 738018, 738019, 738020, 738021, 738022]"
proof -
  have r: "recent 738010 [(738000, 1 / 2), (737000, - (1 / 5))] = [(738000, 1 / 2)]"
    by (simp add: recent_def)
  have r2: "recent 738010 [(737000, - (1 / 5)), (736000, - (3 / 5))] = []"
    by (simp add: recent_def)
  have r0: "recent 738010 [] = []"
    by (simp add: recent_def)
  have l: "length (recent 738010 [(738000, 1 / 2), (737000, - (1 / 5))]) < 5" by (simp add: r)
  have l2: "length (recent 738010 [(737000, - (1 / 5)), (736000, - (3 / 5))]) < 5" by (simp add: r2)
  have l0: "length (recent 738010 []) < 5" by (simp add: r0)
  have d: "bdate_range 738011 prediction_days =
             [738011, 738012, 738013, 738014, 738015, 738018, 738019, 738020, 738021, 738022]"
    by (simp add: prediction_days_def eval_nat_numeral roll_forward_def weekday_def)
  have "forecast_future_sentiment (\<lambda>xs ys. Inr (linear_fit xs ys)) 738010 [(738000, 1 / 2), (737000, - (1 / 5))] [738011, 738012] =
          [(738011, 1 / 2), (738012, 1 / 2)]"
    using sentiment_fallback_flat[OF l, where regression = "(\<lambda>xs ys. Inr (linear_fit xs ys))" and future_dates = "[738011, 738012]"]
    by (simp add: r mean_def dict_of_def)
  moreover have
    "forecast_future_sentiment (\<lambda>xs ys. Inr (linear_fit xs ys)) 738010 [(737000, - (1 / 5)), (736000, - (3 / 5))] [738011, 738012] =
          [(738011, - (2 / 5)), (738012, - (2 / 5))]"
    using sentiment_fallback_flat[OF l2, where regression = "(\<lambda>xs ys. Inr (linear_fit xs ys))" and future_dates = "[738011, 738012]"]
    by (simp add: r2 mean_def dict_of_def)
  moreover have "forecast_future_sentiment (\<lambda>xs ys. Inr (linear_fit xs ys)) 738010 [] (bdate_range 738011 prediction_days) =
     map (\<lambda>d. (d, 0)) [738011, 738012, 738013, 738014, 738015, 738018, 738019, 738020, 738021, 738022]"
    using sentiment_fallback_flat[OF l0, where regression = "(\<lambda>xs ys. Inr (linear_fit xs ys))" and future_dates = "bdate_range 738011 prediction_days"]
    by (simp add: d dict_of_def)
  ultimately show ?thesis using l l0 r by blast
qed




section \<open>Continuity shift and price floor\<close>

text \<open>
  The double nearest to \<open>0.3\<close>, and the two roundings of the shift of a first price
  \<open>10\<close> to it.
\<close>

lemma fl_three_tenths: "fl (3 / 10) = 5404319552844595 / 2 ^ 54"
proof -
  have "fl (3 / 10) = of_int 5404319552844595 * 2 powi (- 2 - 52)"
    by (rule fl_eval) (simp_all add: round_half_even_def power_int_minus)
  then show ?thesis by (simp add: power_int_minus)
qed

lemma fl_shift_three_tenths:
  "fl (5404319552844595 / 2 ^ 54 - 10) = - 5460614548186726 / 2 ^ 49"
proof -
  have "fl (5404319552844595 / 2 ^ 54 - 10) = of_int (- 5460614548186726) * 2 powi (3 - 52)"
    by (rule fl_eval) (simp_all add: round_half_even_def power_int_minus)
  then show ?thesis by (simp add: power_int_minus)
qed

lemma fl_sum_three_tenths:
  "fl (10 + - 5460614548186726 / 2 ^ 49) = 168884986026394 / 2 ^ 49"
proof -
  have "fl (10 + - 5460614548186726 / 2 ^ 49) = of_int 5404319552844608 * 2 powi (- 2 - 52)"
    by (rule fl_eval) (simp_all add: round_half_even_def power_int_minus)
  then show ?thesis by (simp add: power_int_minus)
qed

lemma representable_quarters: "\<bar>m\<bar> < 2 ^ 53 \<Longrightarrow> representable (of_int m / 4)"
  by (rule representableI[where m = m and e = "- 2"]) (simp_all add: power_int_minus)

lemma shift_prices_Inr:
  assumes "predicted_prices \<noteq> []"
  shows "shift_prices last_price predicted_prices =
           Inr (map (\<lambda>p. fl (p + fl (last_price - predicted_prices ! 0))) predicted_prices)"
  using assms by (cases predicted_prices) (simp_all add: shift_prices_def)

lemma shift_prices_nonempty:
  assumes "shift_prices last_price predicted_prices = Inr adjusted"
  shows "predicted_prices \<noteq> []"
  using assms by (auto simp: shift_prices_def)

lemma incorporate_sentiment_off:
  "\<not> PERFORM_SENTIMENT e \<Longrightarrow> incorporate_sentiment e dates prices = prices"
  by (simp add: incorporate_sentiment_def)

lemma map_enumerate_snd: "map (\<lambda>(i, p). f p) (enumerate n xs) = map f xs"
  by (induction xs arbitrary: n) simp_all

lemma add_noise_off:
  assumes "\<forall>i. standard_normal e i = 0" "add_noise e prices = Inr noisy"
  shows "noisy = map (\<lambda>p. max p (1 / 100)) prices"
proof -
  from assms have "noisy = map (\<lambda>(i, p). max p (1 / 100)) (enumerate 0 prices)"
    by (auto simp: add_noise_def split: if_splits)
  then show ?thesis by (simp only: map_enumerate_snd)
qed

lemma forecast_shifted_prices:
  assumes "forecast e df T sc scaled ws = Inr (dates, prices)"
    and "\<not> PERFORM_SENTIMENT e" "\<forall>i. standard_normal e i = 0"
  shows "\<exists>last_price predicted_prices.
           last_actual_price df = Inr last_price \<and> predicted_prices \<noteq> [] \<and>
           prices = map (\<lambda>p. max (fl (p + fl (last_price - predicted_prices ! 0))) (1 / 100))
                      predicted_prices"
proof -
  from assms(1) obtain preds last_price adjusted future_dates where
    lp: "last_actual_price df = Inr last_price"
    and adj: "adjust_forecast sc last_price preds = Inr adjusted"
    and noise: "add_noise e (incorporate_sentiment e future_dates adjusted) = Inr prices"
    by (fastforce simp: forecast_def split: if_splits sum.splits prod.splits list.splits)
  let ?P = "map (inverse_transform sc) preds"
  from adj have s: "shift_prices last_price ?P = Inr adjusted"
    by (simp add: adjust_forecast_def)
  from shift_prices_nonempty[OF s] have ne: "?P \<noteq> []" .
  from s shift_prices_Inr[OF ne, of last_price]
  have a: "adjusted = map (\<lambda>p. fl (p + fl (last_price - ?P ! 0))) ?P" by simp
  from noise have "add_noise e adjusted = Inr prices"
    by (simp add: incorporate_sentiment_off[OF assms(2)])
  from add_noise_off[OF assms(3) this]
  have "prices = map (\<lambda>p. max (fl (p + fl (last_price - ?P ! 0))) (1 / 100)) ?P"
    by (simp add: a comp_def)
  with lp ne show ?thesis by blast
qed

lemma predict_future_shifted_prices:
  assumes "predict_future e df T = Inr (dates, p # ps)"
    and "\<not> PERFORM_SENTIMENT e" "\<forall>i. standard_normal e i = 0"
  shows "\<exists>last_price predicted_prices.
           last_actual_price df = Inr last_price \<and> predicted_prices \<noteq> [] \<and>
           p # ps = map (\<lambda>p. max (fl (p + fl (last_price - predicted_prices ! 0))) (1 / 100))
                      predicted_prices"
proof -
  from assms(1) obtain sc scaled ws where "forecast e df T sc scaled ws = Inr (dates, p # ps)"
    by (auto simp: predict_future_def split: if_splits sum.splits list.splits)
  from forecast_shifted_prices[OF this assms(2,3)] show ?thesis .
qed

text \<open>
  C1, as stated, fails: the shift is a rounded subtraction followed by a rounded
  addition, and the two roundings need not cancel. With the scaler of closes between
  \<open>0\<close> and \<open>1\<close> (\<^verbatim>\<open>min_\<close> \<open>0\<close>, \<^verbatim>\<open>scale_\<close> \<open>1\<close>), a first scaled prediction \<open>10\<close> and the last
  close \<open>0.3\<close> (the double \<open>5404319552844595 / 2^54\<close>), the first adjusted price is
  \<open>168884986026394 / 2^49\<close>, which prints as \<open>0.3000000000000007\<close>, thirteen units in the
  last place above the last close.
\<close>

theorem continuity_shift_counterexample:
  "adjust_forecast \<lparr>min_attr = 0, scale_attr = 1\<rparr> (fl (3 / 10)) [10] =
     Inr [168884986026394 / 2 ^ 49] \<and>
   fl (3 / 10) = 5404319552844595 / 2 ^ 54 \<and>
   (168884986026394 / 2 ^ 49 :: real) \<noteq> 5404319552844595 / 2 ^ 54 \<and>
   (168884986026394 / 2 ^ 49 :: real) - 5404319552844595 / 2 ^ 54 = 13 / 2 ^ 54"
proof -
  have "adjust_forecast \<lparr>min_attr = 0, scale_attr = 1\<rparr> (fl (3 / 10)) [10] =
          Inr [fl (10 + fl (fl (3 / 10) - 10))]"
    by (simp add: adjust_forecast_def shift_prices_def inverse_transform_def)
  also have "fl (10 + fl (fl (3 / 10) - 10)) = 168884986026394 / 2 ^ 49"
    by (simp only: fl_three_tenths fl_shift_three_tenths fl_sum_three_tenths)
  finally show ?thesis by (simp add: fl_three_tenths)
qed

text \<open>
  C1, amended. Take any inverse-scaled path with at least one element, of doubles no
  larger than \<open>2^1022\<close> in magnitude, and a last close that is such a double (so that
  nothing overflows). The shift does not raise; it adds to every element the rounded
  difference between the last close and the first element, rounding each sum, and keeps
  the length. The first adjusted price is the last close up to the two roundings: it
  differs from it by at most \<open>2^-53\<close> of the close plus \<open>2^-53 + 2^-106\<close> of the
  distance between the close and the first inverse-scaled price, and it is the last close
  exactly when the close is positive and the first inverse-scaled price lies between
  half the close and twice the close. The adjustment of a scaled path is this shift of
  its inverse-scaled path, before the sentiment adjustment and the noise: when the
  sentiment adjustment is off and every normal draw is \<open>0\<close>, the prices that
  \<^verbatim>\<open>predict_future\<close> returns are the shifted prices, floored at \<open>0.01\<close>.
\<close>

theorem continuity_shift:
  "(predicted_prices \<noteq> [] \<and>
    (\<forall>p\<in>set predicted_prices. representable p \<and> \<bar>p\<bar> \<le> 2 ^ 1022) \<and>
    representable last_price \<and> \<bar>last_price\<bar> \<le> 2 ^ 1022 \<longrightarrow>
      (\<exists>adjusted.
         shift_prices last_price predicted_prices = Inr adjusted \<and>
         adjusted = map (\<lambda>p. fl (p + fl (last_price - predicted_prices ! 0))) predicted_prices \<and>
         length adjusted = length predicted_prices \<and>
         \<bar>adjusted ! 0 - last_price\<bar> \<le>
           \<bar>last_price\<bar> / 2 ^ 53 +
           (1 / 2 ^ 53 + 1 / 2 ^ 106) * \<bar>last_price - predicted_prices ! 0\<bar> \<and>
         (0 < last_price \<and> last_price / 2 \<le> predicted_prices ! 0 \<and>
          predicted_prices ! 0 \<le> 2 * last_price \<longrightarrow> adjusted ! 0 = last_price))) \<and>
   adjust_forecast sc last_price preds =
     shift_prices last_price (map (inverse_transform sc) preds) \<and>
   (predict_future e training_data time_step = Inr (dates, q # qs) \<and>
    \<not> PERFORM_SENTIMENT e \<and> (\<forall>i. standard_normal e i = 0) \<longrightarrow>
      (\<exists>close inverse_scaled.
         last_actual_price training_data = Inr close \<and> inverse_scaled \<noteq> [] \<and>
         q # qs = map (\<lambda>p. max (fl (p + fl (close - inverse_scaled ! 0))) (1 / 100))
                    inverse_scaled))"
proof (intro conjI impI)
  assume h: "predicted_prices \<noteq> [] \<and>
    (\<forall>p\<in>set predicted_prices. representable p \<and> \<bar>p\<bar> \<le> 2 ^ 1022) \<and>
    representable last_price \<and> \<bar>last_price\<bar> \<le> 2 ^ 1022"
  let ?p0 = "predicted_prices ! 0"
  let ?adjusted = "map (\<lambda>p. fl (p + fl (last_price - ?p0))) predicted_prices"
  from h have ne: "predicted_prices \<noteq> []" by simp
  then have len: "0 < length predicted_prices" by simp
  from ne have p0: "?p0 \<in> set predicted_prices" by simp
  with h have r0: "representable ?p0" by blast
  from h have rc: "representable last_price" by simp
  have first: "?adjusted ! 0 = fl (?p0 + fl (last_price - ?p0))"
    using len by simp
  have "shift_prices last_price predicted_prices = Inr ?adjusted"
    by (rule shift_prices_Inr[OF ne])
  moreover have "length ?adjusted = length predicted_prices" by simp
  moreover have "\<bar>?adjusted ! 0 - last_price\<bar> \<le>
           \<bar>last_price\<bar> / 2 ^ 53 + (1 / 2 ^ 53 + 1 / 2 ^ 106) * \<bar>last_price - ?p0\<bar>"
    unfolding first by (rule shift_error)
  moreover have "0 < last_price \<and> last_price / 2 \<le> ?p0 \<and> ?p0 \<le> 2 * last_price \<longrightarrow>
                   ?adjusted ! 0 = last_price"
    unfolding first using shift_exact[OF r0 rc] by blast
  ultimately show "\<exists>adjusted.
         shift_prices last_price predicted_prices = Inr adjusted \<and>
         adjusted = map (\<lambda>p. fl (p + fl (last_price - predicted_prices ! 0))) predicted_prices \<and>
         length adjusted = length predicted_prices \<and>
         \<bar>adjusted ! 0 - last_price\<bar> \<le>
           \<bar>last_price\<bar> / 2 ^ 53 +
           (1 / 2 ^ 53 + 1 / 2 ^ 106) * \<bar>last_price - predicted_prices ! 0\<bar> \<and>
         (0 < last_price \<and> last_price / 2 \<le> predicted_prices ! 0 \<and>
          predicted_prices ! 0 \<le> 2 * last_price \<longrightarrow> adjusted ! 0 = last_price)"
    by blast
next
  show "adjust_forecast sc last_price preds =
          shift_prices last_price (map (inverse_transform sc) preds)"
    by (simp add: adjust_forecast_def)
next
  assume "predict_future e training_data time_step = Inr (dates, q # qs) \<and>
    \<not> PERFORM_SENTIMENT e \<and> (\<forall>i. standard_normal e i = 0)"
  then show "\<exists>close inverse_scaled.
         last_actual_price training_data = Inr close \<and> inverse_scaled \<noteq> [] \<and>
         q # qs = map (\<lambda>p. max (fl (p + fl (close - inverse_scaled ! 0))) (1 / 100))
                    inverse_scaled"
    using predict_future_shifted_prices by blast
qed

theorem continuity_shift_witness:
  "([489 / 4, 245 / 2, 491 / 4, 123, 493 / 4, 247 / 2, 495 / 4, 124, 497 / 4, 249 / 2] :: real list) \<noteq> [] \<and>
   representable 122 \<and> \<bar>122 :: real\<bar> \<le> 2 ^ 1022 \<and>
   shift_prices 122 [489 / 4, 245 / 2, 491 / 4, 123, 493 / 4, 247 / 2, 495 / 4, 124, 497 / 4, 249 / 2] = Inr [122, 489 / 4, 245 / 2, 491 / 4, 123, 493 / 4, 247 / 2, 495 / 4, 124, 497 / 4] \<and>
   \<bar>[122, 489 / 4, 245 / 2, 491 / 4, 123, 493 / 4, 247 / 2, 495 / 4, 124, 497 / 4] ! 0 - 122\<bar> \<le> \<bar>122 :: real\<bar> / 2 ^ 53 + (1 / 2 ^ 53 + 1 / 2 ^ 106) * \<bar>122 - [489 / 4, 245 / 2, 491 / 4, 123, 493 / 4, 247 / 2, 495 / 4, 124, 497 / 4, 249 / 2] ! 0\<bar> \<and>
   (0 :: real) < 122 \<and> (122 :: real) / 2 \<le> [489 / 4, 245 / 2, 491 / 4, 123, 493 / 4, 247 / 2, 495 / 4, 124, 497 / 4, 249 / 2] ! 0 \<and> [489 / 4, 245 / 2, 491 / 4, 123, 493 / 4, 247 / 2, 495 / 4, 124, 497 / 4, 249 / 2] ! 0 \<le> 2 * (122 :: real) \<and>
   ([122, 489 / 4, 245 / 2, 491 / 4, 123, 493 / 4, 247 / 2, 495 / 4, 124, 497 / 4] :: real list) ! 0 = 122 \<and>
   adjust_forecast \<lparr>min_attr = - 60, scale_attr = 1 / 2\<rparr> 122 [9 / 8, 5 / 4, 11 / 8, 3 / 2, 13 / 8, 7 / 4, 15 / 8, 2, 17 / 8, 9 / 4] =
     shift_prices 122 (map (inverse_transform \<lparr>min_attr = - 60, scale_attr = 1 / 2\<rparr>) [9 / 8, 5 / 4, 11 / 8, 3 / 2, 13 / 8, 7 / 4, 15 / 8, 2, 17 / 8, 9 / 4]) \<and>
   map (inverse_transform \<lparr>min_attr = - 60, scale_attr = 1 / 2\<rparr>) [9 / 8, 5 / 4, 11 / 8, 3 / 2, 13 / 8, 7 / 4, 15 / 8, 2, 17 / 8, 9 / 4] = [489 / 4, 245 / 2, 491 / 4, 123, 493 / 4, 247 / 2, 495 / 4, 124, 497 / 4, 249 / 2] \<and>
   predict_future quiet_env linear_frame 1 = Inr ([738041, 738042, 738043, 738046, 738047, 738048, 738049, 738050, 738053, 738054], [122, 489 / 4, 245 / 2, 491 / 4, 123, 493 / 4, 247 / 2, 495 / 4, 124, 497 / 4]) \<and>
   \<not> PERFORM_SENTIMENT quiet_env \<and> standard_normal quiet_env = (\<lambda>i. 0) \<and>
   last_actual_price linear_frame = Inr 122"
proof -
  let ?P = "[489 / 4, 245 / 2, 491 / 4, 123, 493 / 4, 247 / 2, 495 / 4, 124, 497 / 4, 249 / 2] :: real list"
  let ?A = "[122, 489 / 4, 245 / 2, 491 / 4, 123, 493 / 4, 247 / 2, 495 / 4, 124, 497 / 4] :: real list"
  note r = representable_quarters[of 488, simplified] representable_quarters[of 489, simplified]
    representable_quarters[of 490, simplified] representable_quarters[of 491, simplified]
    representable_quarters[of 492, simplified] representable_quarters[of 493, simplified]
    representable_quarters[of 494, simplified] representable_quarters[of 495, simplified]
    representable_quarters[of 496, simplified] representable_quarters[of 497, simplified]
    representable_quarters[of 498, simplified]
  note f = fl_quarters[of "- 1", simplified] fl_quarters[of 488, simplified]
    fl_quarters[of 489, simplified] fl_quarters[of 490, simplified]
    fl_quarters[of 491, simplified] fl_quarters[of 492, simplified]
    fl_quarters[of 493, simplified] fl_quarters[of 494, simplified]
    fl_quarters[of 495, simplified] fl_quarters[of 496, simplified]
    fl_quarters[of 497, simplified]
  have ne: "?P \<noteq> []" by simp
  have reps: "\<forall>p\<in>set ?P. representable p \<and> \<bar>p\<bar> \<le> 2 ^ 1022" by (simp add: r)
  have rc: "representable 122" "\<bar>122 :: real\<bar> \<le> 2 ^ 1022" by (simp_all add: r)
  have q: "\<not> PERFORM_SENTIMENT quiet_env" "standard_normal quiet_env = (\<lambda>i. 0)"
    by (simp_all add: quiet_env_def)
  have run: "predict_future quiet_env linear_frame 1 = Inr ([738041, 738042, 738043, 738046, 738047, 738048, 738049, 738050, 738053, 738054], 122 # tl ?A)"
    using predict_future_linear_frame_quiet by simp
  have lp: "last_actual_price linear_frame = Inr 122"
    by (simp add: last_actual_price_def linear_frame_def)
  have inv: "map (inverse_transform \<lparr>min_attr = - 60, scale_attr = 1 / 2\<rparr>) [9 / 8, 5 / 4, 11 / 8, 3 / 2, 13 / 8, 7 / 4, 15 / 8, 2, 17 / 8, 9 / 4] = ?P"
    by (simp add: inverse_transform_def)
  note t = continuity_shift[where predicted_prices = ?P and last_price = 122
      and sc = "\<lparr>min_attr = - 60, scale_attr = 1 / 2\<rparr>" and preds = "[9 / 8, 5 / 4, 11 / 8, 3 / 2, 13 / 8, 7 / 4, 15 / 8, 2, 17 / 8, 9 / 4]"
      and e = quiet_env and training_data = linear_frame and time_step = 1
      and dates = "[738041, 738042, 738043, 738046, 738047, 738048, 738049, 738050, 738053, 738054]" and q = 122 and qs = "tl ?A"]
  from t ne reps rc obtain adjusted where
    a: "shift_prices 122 ?P = Inr adjusted"
       "adjusted = map (\<lambda>p. fl (p + fl (122 - ?P ! 0))) ?P"
       "\<bar>adjusted ! 0 - 122\<bar> \<le>
          \<bar>122 :: real\<bar> / 2 ^ 53 + (1 / 2 ^ 53 + 1 / 2 ^ 106) * \<bar>122 - ?P ! 0\<bar>"
       "0 < (122 :: real) \<and> 122 / 2 \<le> ?P ! 0 \<and> ?P ! 0 \<le> 2 * 122 \<longrightarrow> adjusted ! 0 = 122"
    by blast
  from a(2) have v: "adjusted = ?A" by (simp add: f)
  from t have adj: "adjust_forecast \<lparr>min_attr = - 60, scale_attr = 1 / 2\<rparr> 122 [9 / 8, 5 / 4, 11 / 8, 3 / 2, 13 / 8, 7 / 4, 15 / 8, 2, 17 / 8, 9 / 4] =
     shift_prices 122 (map (inverse_transform \<lparr>min_attr = - 60, scale_attr = 1 / 2\<rparr>) [9 / 8, 5 / 4, 11 / 8, 3 / 2, 13 / 8, 7 / 4, 15 / 8, 2, 17 / 8, 9 / 4])"
    by blast
  have c: "(0 :: real) < 122" "(122 :: real) / 2 \<le> ?P ! 0" "?P ! 0 \<le> 2 * (122 :: real)"
    by simp_all
  with a(4) have "adjusted ! 0 = 122" by blast
  with a(1,3) v have
    "shift_prices 122 ?P = Inr ?A"
    "\<bar>?A ! 0 - 122\<bar> \<le> \<bar>122 :: real\<bar> / 2 ^ 53 + (1 / 2 ^ 53 + 1 / 2 ^ 106) * \<bar>122 - ?P ! 0\<bar>"
    "?A ! 0 = 122"
    by simp_all
  moreover from run have "predict_future quiet_env linear_frame 1 = Inr ([738041, 738042, 738043, 738046, 738047, 738048, 738049, 738050, 738053, 738054], ?A)" by simp
  ultimately show ?thesis using ne rc c adj inv q lp by - (intro conjI, assumption+)
qed

lemma add_noise_floor:
  assumes "add_noise e final_prices = Inr noisy"
  shows "length noisy = length final_prices \<and> (\<forall>p\<in>set noisy. 1 / 100 \<le> p)"
proof -
  from assms have n: "noisy = map (\<lambda>(i, p). max (p + mean final_prices * (5 / 1000) * standard_normal e i)
                                 (1 / 100)) (enumerate 0 final_prices)"
    by (auto simp: add_noise_def split: if_splits)
  have "length noisy = length final_prices" unfolding n by simp
  moreover have "\<forall>p\<in>set noisy. 1 / 100 \<le> p" unfolding n by (auto simp: max_def)
  ultimately show ?thesis by blast
qed

lemma forecast_prices:
  assumes "forecast e df T sc scaled ws = Inr (dates, prices)"
  shows "\<exists>final. add_noise e final = Inr prices"
  using assms
  by (auto simp: forecast_def split: if_splits sum.splits prod.splits list.splits)

lemma predict_future_prices:
  assumes "predict_future e df T = Inr (dates, prices)"
  shows "prices = [] \<or> (\<exists>final. add_noise e final = Inr prices)"
  using assms forecast_prices
  by (fastforce simp: predict_future_def split: if_splits sum.splits list.splits)

text \<open>
  C9. Whatever the prices before the noise and whatever the normal draws, a returned
  price list has the length of the input and no entry below \<open>0.01\<close>; hence every
  price that \<^verbatim>\<open>predict_future\<close> returns is at least \<open>0.01\<close> and positive.
\<close>

theorem price_floor:
  "(add_noise e final_prices = Inr noisy \<longrightarrow>
      length noisy = length final_prices \<and> (\<forall>p\<in>set noisy. 1 / 100 \<le> p \<and> 0 < p)) \<and>
   (predict_future e training_data time_step = Inr (dates, prices) \<longrightarrow>
      (\<forall>p\<in>set prices. 1 / 100 \<le> p \<and> 0 < p))"
proof (intro conjI impI)
  assume a: "add_noise e final_prices = Inr noisy"
  from add_noise_floor[OF a] show "length noisy = length final_prices" by simp
  from add_noise_floor[OF a] have "\<forall>p\<in>set noisy. 1 / 100 \<le> p" by simp
  then show "\<forall>p\<in>set noisy. 1 / 100 \<le> p \<and> 0 < p" by fastforce
next
  assume "predict_future e training_data time_step = Inr (dates, prices)"
  from predict_future_prices[OF this] add_noise_floor
  have "\<forall>p\<in>set prices. 1 / 100 \<le> p" by fastforce
  then show "\<forall>p\<in>set prices. 1 / 100 \<le> p \<and> 0 < p" by fastforce
qed

theorem price_floor_witness:
  "predict_future example_env linear_frame 1 =
     Inr ([738041, 738042, 738043, 738046, 738047, 738048, 738049, 738050, 738053, 738054],
          [15734037 / 128000, 15608123 / 128000, 15798197 / 128000, 15672283 / 128000,
           15862357 / 128000, 15736443 / 128000, 15926517 / 128000, 15800603 / 128000,
           15990677 / 128000, 15864763 / 128000]) \<and>
   set [15734037 / 128000, 15608123 / 128000, 15798197 / 128000, 15672283 / 128000,
        15862357 / 128000, 15736443 / 128000, 15926517 / 128000, 15800603 / 128000,
        15990677 / 128000, 15864763 / 128000 :: real] \<subseteq> {1 / 100..} \<and>
   add_noise (example_env\<lparr>standard_normal := \<lambda>i. - 300\<rparr>) [100, 50, 3] =
     Inr [47 / 2, 1 / 100, 1 / 100] \<and>
   set [47 / 2, 1 / 100, 1 / 100 :: real] \<subseteq> {1 / 100..}"
proof -
  have n: "add_noise (example_env\<lparr>standard_normal := \<lambda>i. - 300\<rparr>) [100, 50, 3] =
             Inr [47 / 2, 1 / 100, 1 / 100]"
    by (simp add: add_noise_def mean_def enumerate_eq_zip upt_rec)
  from price_floor[of "example_env\<lparr>standard_normal := \<lambda>i. - 300\<rparr>" "[100, 50, 3]"
         "[47 / 2, 1 / 100, 1 / 100]"] n
  have a: "set [47 / 2, 1 / 100, 1 / 100 :: real] \<subseteq> {1 / 100..}"
    by auto
  from price_floor[where e = example_env and training_data = linear_frame and time_step = 1
         and dates = "[738041, 738042, 738043, 738046, 738047, 738048, 738049, 738050, 738053, 738054]"
         and prices = "[15734037 / 128000, 15608123 / 128000, 15798197 / 128000, 15672283 / 128000,
           15862357 / 128000, 15736443 / 128000, 15926517 / 128000, 15800603 / 128000,
           15990677 / 128000, 15864763 / 128000]"]
       predict_future_linear_frame
  have b: "set [15734037 / 128000, 15608123 / 128000, 15798197 / 128000, 15672283 / 128000,
        15862357 / 128000, 15736443 / 128000, 15926517 / 128000, 15800603 / 128000,
        15990677 / 128000, 15864763 / 128000 :: real] \<subseteq> {1 / 100..}"
    by auto
  from a b n predict_future_linear_frame show ?thesis by blast
qed

section \<open>Failure paths\<close>

lemma compute_indicators_empty: "empty_frame df \<Longrightarrow> compute_indicators df vw ew = []"
  by (simp add: compute_indicators_def)

lemma compute_indicators_missing:
  assumes "c \<in> set required_cols" "c \<notin> set (map fst (normalize_columns df))"
  shows "compute_indicators df vw ew = []"
proof -
  have "filter (\<lambda>col. col \<notin> set (map fst (normalize_columns df))) required_cols \<noteq> []"
    using assms by (auto simp: filter_empty_conv)
  then show ?thesis by (simp add: compute_indicators_def Let_def)
qed

lemma rows_of_length_le: "length (rows_of (c # cs)) \<le> length c"
  by (cases cs) auto

lemma map_filter_length_le: "length (List.map_filter f xs) \<le> length xs"
  by (simp add: List.map_filter_def)

lemma feature_columns_first:
  assumes "feature_columns close high low volume vw ew = Inr cols"
  shows "\<exists>rest. cols = map Some close # rest"
  using assms by (auto simp: feature_columns_def split: if_splits sum.splits)

lemma compute_indicators_length:
  assumes "wf_frame df"
  shows "length (compute_indicators df vw ew) \<le> length (index df)"
proof -
  from compute_indicators_cases[of df vw ew] show ?thesis
  proof
    assume "compute_indicators df vw ew = []"
    then show ?thesis by simp
  next
    assume "\<exists>close high low volume cols.
      map_of (normalize_columns df) ''close'' = Some close \<and>
      map_of (normalize_columns df) ''high'' = Some high \<and>
      map_of (normalize_columns df) ''low'' = Some low \<and>
      map_of (normalize_columns df) ''volume'' = Some volume \<and>
      feature_columns close high low volume vw ew = Inr cols \<and>
      compute_indicators df vw ew = dropna cols"
    then obtain close high low volume cols where
      c: "map_of (normalize_columns df) ''close'' = Some close"
      and f: "feature_columns close high low volume vw ew = Inr cols"
      and d: "compute_indicators df vw ew = dropna cols" by blast
    from feature_columns_first[OF f] obtain rest where cols: "cols = map Some close # rest"
      by blast
    have "length (dropna cols) \<le> length (rows_of cols)"
      unfolding dropna_def by (rule map_filter_length_le)
    also have "\<dots> \<le> length close" using rows_of_length_le[of "map Some close" rest] cols by simp
    also have "\<dots> = length (index df)" using normalize_columns_length[OF assms c] .
    finally show ?thesis using d by simp
  qed
qed

lemma compute_indicators_row_length:
  assumes "r \<in> set (compute_indicators df vw ew)"
  shows "length r = 9"
proof -
  from compute_indicators_cases[of df vw ew] assms obtain close high low volume cols where
    f: "feature_columns close high low volume vw ew = Inr cols"
    and d: "compute_indicators df vw ew = dropna cols" by auto
  from assms d obtain row where row: "row \<in> set (rows_of cols)" "those row = Some r"
    by (auto simp: dropna_def List.map_filter_def)
  from feature_columns_shape[OF f] have "length cols = 9" by simp
  with rows_of_row_length[OF row(1)] those_length[OF row(2)] show ?thesis by simp
qed

lemma make_windows_empty: "length m \<le> T \<Longrightarrow> make_windows m T = []"
  by (simp add: make_windows_def)

lemma predict_future_failure:
  assumes "length (compute_indicators df 20 20) \<le> T"
  shows "predict_future e df T = Inr (failure_dates e df, [])"
proof (cases "compute_indicators df 20 20")
  case Nil
  then show ?thesis by (simp add: predict_future_def)
next
  case (Cons r rs)
  then have "length r = 9" using compute_indicators_row_length[of r df 20 20] by simp
  then obtain x xs where r: "r = x # xs" by (cases r) auto
  have w: "make_windows (transform_rows scs (compute_indicators df 20 20)) T = []" for scs
    using assms by (simp add: make_windows_empty transform_rows_def)
  show ?thesis
    unfolding predict_future_def w
    by (simp add: Cons r fit_Cons)
qed

subsection \<open>Business days\<close>

lemma roll_forward_business_day: "business_day (roll_forward d) \<and> d \<le> roll_forward d"
  unfolding business_day_def roll_forward_def weekday_def by presburger

lemma bdate_range_length: "length (bdate_range start n) = n"
  by (induction n arbitrary: start) auto

lemma bdate_range_members:
  "d \<in> set (bdate_range start n) \<Longrightarrow> business_day d \<and> start \<le> d"
proof (induction n arbitrary: start)
  case 0
  then show ?case by simp
next
  case (Suc n)
  from Suc.prems consider "d = roll_forward start"
    | "d \<in> set (bdate_range (roll_forward start + 1) n)" by auto
  then show ?case
  proof cases
    case 1
    then show ?thesis using roll_forward_business_day[of start] by simp
  next
    case 2
    from Suc.IH[OF 2] roll_forward_business_day[of start] show ?thesis by simp
  qed
qed

lemma bdate_range_increasing: "sorted_wrt (<) (bdate_range start n)"
proof (induction n arbitrary: start)
  case 0
  then show ?case by simp
next
  case (Suc n)
  have "\<forall>d\<in>set (bdate_range (roll_forward start + 1) n). roll_forward start < d"
    using bdate_range_members by fastforce
  with Suc.IH show ?case by simp
qed


subsection \<open>Input-data errors\<close>

text \<open>
  C5. An empty frame and a frame that lacks a required column after normalisation make
  \<^verbatim>\<open>compute_indicators\<close> return the frame without rows; a well-formed frame of at most
  \<open>T\<close> rows gives at most \<open>T\<close> feature rows; and in each of these cases, as whenever the
  feature rows number at most \<open>T\<close>, \<^verbatim>\<open>predict_future\<close> does not raise and returns its
  dates with an empty price array.
\<close>

theorem input_data_errors:
  "(empty_frame df \<longrightarrow> compute_indicators df vw ew = []) \<and>
   ((\<exists>c\<in>set required_cols. c \<notin> set (map fst (normalize_columns df))) \<longrightarrow>
      compute_indicators df vw ew = []) \<and>
   (wf_frame df \<and> length (index df) \<le> T \<longrightarrow> length (compute_indicators df 20 20) \<le> T) \<and>
   (empty_frame df \<or> (\<exists>c\<in>set required_cols. c \<notin> set (map fst (normalize_columns df))) \<or>
    (wf_frame df \<and> length (index df) \<le> T) \<or> length (compute_indicators df 20 20) \<le> T \<longrightarrow>
      predict_future e df T = Inr (failure_dates e df, []))"
proof -
  have a: "empty_frame df \<Longrightarrow> compute_indicators df vw ew = []" for vw ew
    by (rule compute_indicators_empty)
  have b: "\<exists>c\<in>set required_cols. c \<notin> set (map fst (normalize_columns df)) \<Longrightarrow>
             compute_indicators df vw ew = []" for vw ew
    using compute_indicators_missing by blast
  have c: "wf_frame df \<and> length (index df) \<le> T \<Longrightarrow> length (compute_indicators df 20 20) \<le> T"
    using compute_indicators_length[of df 20 20] by simp
  have d: "predict_future e df T = Inr (failure_dates e df, [])"
    if "empty_frame df \<or> (\<exists>c\<in>set required_cols. c \<notin> set (map fst (normalize_columns df))) \<or>
        (wf_frame df \<and> length (index df) \<le> T) \<or> length (compute_indicators df 20 20) \<le> T"
  proof -
    from that a[of 20 20] b[of 20 20] c have "length (compute_indicators df 20 20) \<le> T"
      by fastforce
    then show ?thesis by (rule predict_future_failure)
  qed
  show ?thesis using a b c d by blast
qed

lemma failure_dates_no_data: "failure_dates example_env no_data_frame =
    [738041, 738042, 738043, 738046, 738047, 738048, 738049, 738050, 738053, 738054]"
  by (simp add: failure_dates_def empty_frame_def no_data_frame_def example_env_def dates_linear_frame)

lemma failure_dates_columnless: "failure_dates example_env columnless_frame =
    [738041, 738042, 738043, 738046, 738047, 738048, 738049, 738050, 738053, 738054]"
  by (simp add: failure_dates_def empty_frame_def columnless_frame_def example_env_def dates_linear_frame)

lemma dates_after_738026: "bdate_range 738027 prediction_days =
    [738027, 738028, 738029, 738032, 738033, 738034, 738035, 738036, 738039, 738040]"
  by (simp add: prediction_days_def eval_nat_numeral roll_forward_def weekday_def)

lemma dates_after_738012: "bdate_range 738013 prediction_days =
    [738013, 738014, 738015, 738018, 738019, 738020, 738021, 738022, 738025, 738026]"
  by (simp add: prediction_days_def eval_nat_numeral roll_forward_def weekday_def)

lemma dates_after_738011: "bdate_range 738012 prediction_days =
    [738012, 738013, 738014, 738015, 738018, 738019, 738020, 738021, 738022, 738025]"
  by (simp add: prediction_days_def eval_nat_numeral roll_forward_def weekday_def)

lemma failure_dates_rising: "failure_dates example_env rising_frame =
    [738027, 738028, 738029, 738032, 738033, 738034, 738035, 738036, 738039, 738040]"
  by (simp add: failure_dates_def empty_frame_def rising_frame_def dates_after_738026)

lemma failure_dates_no_volume: "failure_dates example_env no_volume_frame =
    [738013, 738014, 738015, 738018, 738019, 738020, 738021, 738022, 738025, 738026]"
  by (simp add: failure_dates_def empty_frame_def no_volume_frame_def dates_after_738012)

lemma normalize_no_volume_frame: "normalize_columns no_volume_frame = columns no_volume_frame"
  unfolding normalize_columns_def no_volume_frame_def
  by (simp add: lower_def) code_simp

theorem input_data_errors_witness:
  "empty_frame no_data_frame \<and> compute_indicators no_data_frame 20 20 = [] \<and>
   predict_future example_env no_data_frame 60 =
     Inr ([738041, 738042, 738043, 738046, 738047, 738048, 738049, 738050, 738053, 738054], []) \<and>
   ''volume'' \<in> set required_cols \<and>
   ''volume'' \<notin> set (map fst (normalize_columns no_volume_frame)) \<and>
   compute_indicators no_volume_frame 20 20 = [] \<and>
   predict_future example_env no_volume_frame 60 =
     Inr ([738013, 738014, 738015, 738018, 738019, 738020, 738021, 738022, 738025, 738026], []) \<and>
   wf_frame rising_frame \<and> length (index rising_frame) \<le> 60 \<and>
   length (compute_indicators rising_frame 20 20) \<le> 60 \<and>
   predict_future example_env rising_frame 60 =
     Inr ([738027, 738028, 738029, 738032, 738033, 738034, 738035, 738036, 738039, 738040], []) \<and>
   length (compute_indicators linear_frame 20 20) \<le> 3 \<and>
   predict_future example_env linear_frame 3 =
     Inr ([738041, 738042, 738043, 738046, 738047, 738048, 738049, 738050, 738053, 738054], [])"
proof -
  have e: "empty_frame no_data_frame" by (simp add: empty_frame_def no_data_frame_def)
  have v: "''volume'' \<in> set required_cols" by (simp add: required_cols_def)
  have m: "''volume'' \<notin> set (map fst (normalize_columns no_volume_frame))"
    unfolding normalize_no_volume_frame by (simp add: no_volume_frame_def)
  have w: "wf_frame rising_frame" by (simp add: wf_frame_def rising_frame_def)
  have l: "length (index rising_frame) \<le> 60" by (simp add: rising_frame_def)
  have f: "length (compute_indicators linear_frame 20 20) \<le> 3"
    using features_linear_frame by auto
  have fd: "failure_dates example_env linear_frame =
    [738041, 738042, 738043, 738046, 738047, 738048, 738049, 738050, 738053, 738054]"
    by (simp add: failure_dates_def empty_frame_def linear_frame_def dates_linear_frame)
  note t1 = input_data_errors[of no_data_frame 20 20 60 example_env]
  note t2 = input_data_errors[of no_volume_frame 20 20 60 example_env]
  note t3 = input_data_errors[of rising_frame 20 20 60 example_env]
  note t4 = input_data_errors[of linear_frame 20 20 3 example_env]
  from t1 e have "compute_indicators no_data_frame 20 20 = []"
    "predict_future example_env no_data_frame 60 = Inr (failure_dates example_env no_data_frame, [])"
    by blast+
  moreover from t2 v m have "compute_indicators no_volume_frame 20 20 = []"
    "predict_future example_env no_volume_frame 60 =
       Inr (failure_dates example_env no_volume_frame, [])"
    by blast+
  moreover from t3 w l have "length (compute_indicators rising_frame 20 20) \<le> 60"
    "predict_future example_env rising_frame 60 = Inr (failure_dates example_env rising_frame, [])"
    by blast+
  moreover from t4 f have
    "predict_future example_env linear_frame 3 = Inr (failure_dates example_env linear_frame, [])"
    by blast
  ultimately show ?thesis
    using e v m w l f
    by (simp add: failure_dates_no_data failure_dates_no_volume failure_dates_rising fd)
qed

subsection \<open>The dates of the failure paths\<close>

text \<open>
  C10, as stated, fails on an empty frame. For the frame without rows there is no last
  historical date, and the ten dates follow today's date (here 738040); for the frame
  with the dated row 738011 and no column they follow today's date as well, not 738011.
\<close>

theorem failure_dates_counterexample:
  "length (compute_indicators no_data_frame 20 20) \<le> 60 \<and>
   index no_data_frame = [] \<and>
   predict_future example_env no_data_frame 60 =
     Inr ([738041, 738042, 738043, 738046, 738047, 738048, 738049, 738050, 738053, 738054], []) \<and>
   length (compute_indicators columnless_frame 20 20) \<le> 60 \<and>
   last (index columnless_frame) = 738011 \<and>
   predict_future example_env columnless_frame 60 =
     Inr ([738041, 738042, 738043, 738046, 738047, 738048, 738049, 738050, 738053, 738054], []) \<and>
   predict_future example_env columnless_frame 60 \<noteq>
     Inr (bdate_range (last (index columnless_frame) + 1) prediction_days, [])"
proof -
  have e1: "compute_indicators no_data_frame 20 20 = []"
    by (simp add: compute_indicators_empty empty_frame_def no_data_frame_def)
  have e2: "compute_indicators columnless_frame 20 20 = []"
    by (simp add: compute_indicators_empty empty_frame_def columnless_frame_def)
  have p1: "predict_future example_env no_data_frame 60 =
     Inr ([738041, 738042, 738043, 738046, 738047, 738048, 738049, 738050, 738053, 738054], [])"
    by (simp add: predict_future_def e1 failure_dates_no_data)
  have p2: "predict_future example_env columnless_frame 60 =
     Inr ([738041, 738042, 738043, 738046, 738047, 738048, 738049, 738050, 738053, 738054], [])"
    by (simp add: predict_future_def e2 failure_dates_columnless)
  have l: "last (index columnless_frame) = 738011" by (simp add: columnless_frame_def)
  show ?thesis
    by (simp add: e1 e2 p1 p2 l dates_after_738011) (simp add: no_data_frame_def)
qed

text \<open>
  C10, amended. Whenever the feature rows number at most \<open>T\<close> (none, or too few for one
  window), \<^verbatim>\<open>predict_future\<close> returns an empty price array with the first ten business
  days after the anchor date, in increasing order: the anchor is the last date of the
  frame, or today's date when the frame is empty. The ten dates and the zero prices are
  not parallel.
\<close>

theorem failure_dates_anchor:
  assumes "length (compute_indicators df 20 20) \<le> T"
  shows "\<exists>dates prices.
           predict_future e df T = Inr (dates, prices) \<and> prices = [] \<and>
           dates = bdate_range ((if empty_frame df then today e else last (index df)) + 1) 10 \<and>
           length dates = 10 \<and> length dates \<noteq> length prices \<and>
           sorted_wrt (<) dates \<and>
           (\<forall>d\<in>set dates. business_day d \<and> (if empty_frame df then today e else last (index df)) < d)"
proof -
  let ?a = "if empty_frame df then today e else last (index df)"
  have fd: "failure_dates e df = bdate_range (?a + 1) 10"
    by (simp add: failure_dates_def prediction_days_def)
  have "predict_future e df T = Inr (bdate_range (?a + 1) 10, [])"
    using predict_future_failure[OF assms, of e] fd by simp
  moreover have "length (bdate_range (?a + 1) 10) = 10" by (rule bdate_range_length)
  moreover have "sorted_wrt (<) (bdate_range (?a + 1) 10)" by (rule bdate_range_increasing)
  moreover have "\<forall>d\<in>set (bdate_range (?a + 1) 10). business_day d \<and> ?a < d"
    using bdate_range_members[of _ "?a + 1" 10] by fastforce
  ultimately show ?thesis
    by (intro exI[of _ "bdate_range (?a + 1) 10"] exI[of _ "[]"]) simp
qed

theorem failure_dates_anchor_witness:
  "length (compute_indicators rising_frame 20 20) \<le> 60 \<and>
   last (index rising_frame) = 738026 \<and>
   predict_future example_env rising_frame 60 =
     Inr ([738027, 738028, 738029, 738032, 738033, 738034, 738035, 738036, 738039, 738040], []) \<and>
   (\<exists>dates prices. predict_future example_env rising_frame 60 = Inr (dates, prices) \<and>
      prices = [] \<and> length dates = 10 \<and> sorted_wrt (<) dates)"
proof -
  have w: "wf_frame rising_frame" by (simp add: wf_frame_def rising_frame_def)
  have "length (compute_indicators rising_frame 20 20) \<le> length (index rising_frame)"
    using w by (rule compute_indicators_length)
  then have s: "length (compute_indicators rising_frame 20 20) \<le> 60"
    by (simp add: rising_frame_def)
  have ne: "\<not> empty_frame rising_frame" "last (index rising_frame) = 738026"
    by (simp_all add: empty_frame_def rising_frame_def)
  have d: "bdate_range (738026 + 1) 10 =
    [738027, 738028, 738029, 738032, 738033, 738034, 738035, 738036, 738039, 738040]"
    using dates_after_738026 by (simp add: prediction_days_def)
  from failure_dates_anchor[OF s, of example_env] ne d
  have "predict_future example_env rising_frame 60 =
     Inr ([738027, 738028, 738029, 738032, 738033, 738034, 738035, 738036, 738039, 738040], []) \<and>
   (\<exists>dates prices. predict_future example_env rising_frame 60 = Inr (dates, prices) \<and>
      prices = [] \<and> length dates = 10 \<and> sorted_wrt (<) dates)"
    by auto
  with s ne show ?thesis by simp
qed

end
